theory Spec2Isabelle
  imports Complex_Main "HOL-Library.Monad_Syntax"
begin

section \<open>Data model\<close>

text \<open>
  The C++ type \<open>double\<close> is idealised as \<open>real\<close>: arithmetic is exact, there is no
  NaN, no infinity, no signed zero and no rounding, and \<open>x / 0\<close> is \<open>0\<close> where C returns an
  infinity or NaN. The structure of the tape (which node is recorded, which slot holds which
  derivative, which pointer is stored, in which order the sweep visits the nodes) is
  modelled as the code has it. A statement about a quotient carries the hypothesis that the
  divisor is not 0, a statement about \<open>pow\<close> and \<open>log\<close> that the base is positive. Where a
  claim turns on rounding or on the special values of a double, the sections on rounded
  arithmetic and on special values below give the arithmetic of doubles in that respect.
\<close>

type_synonym double = real

text \<open>
  A \<open>double*\<close> stored in a node's \<open>pAdjPtrs\<close> array. In single-output mode the
  constructors of \<open>Number\<close> store \<open>&arg.mAdjoint\<close>, the address of the scalar adjoint held
  inside node \<open>k\<close> of \<open>myNodes\<close>; in multi-output mode they store \<open>arg.pAdjoints\<close>, an
  address inside \<open>myAdjointsMulti\<close>.
\<close>

datatype dptr = AdjPtr nat | MultiPtr nat

text \<open>
  \<open>class Node\<close>. The three pointer members are addresses (slot numbers) inside the
  block-lists \<open>myAdjointsMulti\<close>, \<open>myDers\<close> and \<open>myArgPtrs\<close> of the tape.
  The member \<open>n\<close> of the source is called \<open>Node_n\<close>.
\<close>

record Node =
  Node_n :: nat
  mAdjoint :: double
  pAdjoints :: nat
  pDerivatives :: nat
  pAdjPtrs :: nat

text \<open>
  Modelled from the spec: \<open>blocklist.h\<close> is not among the sources. A block-list is a
  chain of blocks of \<open>N\<close> slots with a cursor (current block, next free slot) and a mark (a
  saved cursor). Slot \<open>s\<close> of block \<open>b\<close> has the address \<open>b * N + s\<close>; the cursor and the
  mark are kept as such addresses. Storage is never moved and survives a rewind, so the
  contents are a function from addresses to values.
\<close>

record 'a blocklist =
  data :: "nat \<Rightarrow> 'a"
  next_space :: nat
  marked_space :: nat

text \<open>
  \<open>class Tape\<close>, with the static members \<open>Tape::multi\<close> and \<open>Node::numAdj\<close> carried in
  the state.
\<close>

record Tape =
  multi :: bool
  numAdj :: nat
  myAdjointsMulti :: "double blocklist"
  myDers :: "double blocklist"
  myArgPtrs :: "dptr blocklist"
  myNodes :: "Node blocklist"

text \<open>\<open>class Number\<close>: the value and the node pointer (\<open>None\<close> is the null pointer).\<close>

record Number =
  myValue :: double
  myNode :: "nat option"

definition BLOCKSIZE :: nat where
  "BLOCKSIZE = 16384"

definition ADJSIZE :: nat where
  "ADJSIZE = 32768"

definition DATASIZE :: nat where
  "DATASIZE = 65536"

section \<open>Block-list operations\<close>

text \<open>
  Modelled from the spec: \<open>emplace_back\<close> constructs one element in place at the next free
  slot and advances the cursor. The constructor is given the previous contents of the slot:
  a member that the constructor does not initialise keeps them.
\<close>

definition emplace_back :: "('a \<Rightarrow> 'a) \<Rightarrow> 'a blocklist \<Rightarrow> nat \<times> 'a blocklist" where
  "emplace_back ctor bl =
     (next_space bl,
      bl\<lparr>data := (data bl)(next_space bl := ctor (data bl (next_space bl))),
         next_space := Suc (next_space bl)\<rparr>)"

text \<open>
  Modelled from the spec: \<open>emplace_back_multi(k)\<close> reserves \<open>k\<close> contiguous slots inside one
  block of \<open>N\<close> slots. When the current block cannot fit \<open>k\<close> more, its remaining slots are
  skipped and the allocation starts at the next block. \<open>k > N\<close> is a configuration error
  (\<open>None\<close>).
\<close>

definition emplace_back_multi :: "nat \<Rightarrow> nat \<Rightarrow> 'a blocklist \<Rightarrow> (nat \<times> 'a blocklist) option" where
  "emplace_back_multi N k bl =
     (if N < k then None
      else
        let p = next_space bl;
            start = (if N - p mod N < k then (p div N + 1) * N else p)
        in Some (start, bl\<lparr>next_space := start + k\<rparr>))"

text \<open>Modelled from the spec: \<open>set_mark\<close> saves the cursor, \<open>rewind_to_mark\<close> restores it.\<close>

definition setmark :: "'a blocklist \<Rightarrow> 'a blocklist" where
  "setmark bl = bl\<lparr>marked_space := next_space bl\<rparr>"

definition rewind_to_mark :: "'a blocklist \<Rightarrow> 'a blocklist" where
  "rewind_to_mark bl = bl\<lparr>next_space := marked_space bl\<rparr>"

text \<open>
  Modelled from the spec: iterators of a block-list whose elements were all placed by
  \<open>emplace_back\<close> are the addresses \<open>0 .. next_space\<close>; \<open>begin\<close> is the first, \<open>end\<close> is one
  past the last, and \<open>find p\<close> scans for the element at address \<open>p\<close> and returns \<open>end\<close> when
  it is absent.
\<close>

definition bl_begin :: "'a blocklist \<Rightarrow> nat" where
  "bl_begin bl = 0"

definition bl_end :: "'a blocklist \<Rightarrow> nat" where
  "bl_end bl = next_space bl"

definition bl_find :: "nat \<Rightarrow> 'a blocklist \<Rightarrow> nat" where
  "bl_find p bl = (if p < next_space bl then p else bl_end bl)"

text \<open>\<open>std::fill(p, p + k, v)\<close> on the storage of a block-list.\<close>

definition fill :: "nat \<Rightarrow> nat \<Rightarrow> 'a \<Rightarrow> 'a blocklist \<Rightarrow> 'a blocklist" where
  "fill p k v bl = bl\<lparr>data := (\<lambda>a. if p \<le> a \<and> a < p + k then v else data bl a)\<rparr>"

section \<open>The tape\<close>

abbreviation node_at :: "Tape \<Rightarrow> nat \<Rightarrow> Node" where
  "node_at t k \<equiv> data (myNodes t) k"

definition upd_node :: "nat \<Rightarrow> (Node \<Rightarrow> Node) \<Rightarrow> Tape \<Rightarrow> Tape" where
  "upd_node k f t = t\<lparr>myNodes := (myNodes t)\<lparr>data := (data (myNodes t))(k := f (node_at t k))\<rparr>\<rparr>"

text \<open>
  \<open>Node::Node(const size_t N) : n(N) {}\<close>. Modelled from the spec: \<open>AADNode.h\<close>, which
  declares the members and their initialisers, is not among the sources; the scalar adjoint
  of a newly recorded node is 0 (scenario 1 of the spec reads \<open>x.adjoint() == 8\<close> after one
  sweep with no reset before it). The pointer members are not initialised.
\<close>

definition Node_ctor :: "nat \<Rightarrow> Node \<Rightarrow> Node" where
  "Node_ctor N old = old\<lparr>Node_n := N, mAdjoint := 0\<rparr>"

text \<open>\<open>Tape::recordNode<N>()\<close>.\<close>

definition recordNode :: "nat \<Rightarrow> Tape \<Rightarrow> (nat \<times> Tape) option" where
  "recordNode N t = do {
     let (node, nodes') = emplace_back (Node_ctor N) (myNodes t);
     let t1 = t\<lparr>myNodes := nodes'\<rparr>;
     t2 \<leftarrow> (if multi t1 then do {
              (p, adjs) \<leftarrow> emplace_back_multi ADJSIZE (numAdj t1) (myAdjointsMulti t1);
              Some (upd_node node (\<lambda>nd. nd\<lparr>pAdjoints := p\<rparr>)
                      (t1\<lparr>myAdjointsMulti := fill p (numAdj t1) 0 adjs\<rparr>))
            } else Some t1);
     t3 \<leftarrow> (if 0 < N then do {
              (d, ders) \<leftarrow> emplace_back_multi DATASIZE N (myDers t2);
              (a, ptrs) \<leftarrow> emplace_back_multi DATASIZE N (myArgPtrs t2);
              Some (upd_node node (\<lambda>nd. nd\<lparr>pDerivatives := d, pAdjPtrs := a\<rparr>)
                      (t2\<lparr>myDers := ders, myArgPtrs := ptrs\<rparr>))
            } else Some t2);
     Some (node, t3)
   }"

text \<open>\<open>Tape::mark\<close> and \<open>Tape::rewindToMark\<close>.\<close>

definition mark :: "Tape \<Rightarrow> Tape" where
  "mark t =
     (let t1 = (if multi t then t\<lparr>myAdjointsMulti := setmark (myAdjointsMulti t)\<rparr> else t);
          t2 = t1\<lparr>myDers := setmark (myDers t1)\<rparr>;
          t3 = t2\<lparr>myArgPtrs := setmark (myArgPtrs t2)\<rparr>
      in t3\<lparr>myNodes := setmark (myNodes t3)\<rparr>)"

definition rewindToMark :: "Tape \<Rightarrow> Tape" where
  "rewindToMark t =
     (let t1 = (if multi t then t\<lparr>myAdjointsMulti := rewind_to_mark (myAdjointsMulti t)\<rparr> else t);
          t2 = t1\<lparr>myDers := rewind_to_mark (myDers t1)\<rparr>;
          t3 = t2\<lparr>myArgPtrs := rewind_to_mark (myArgPtrs t2)\<rparr>
      in t3\<lparr>myNodes := rewind_to_mark (myNodes t3)\<rparr>)"

text \<open>
  Modelled from the spec: \<open>memset(v)\<close> overwrites the live elements of a block-list.
\<close>

definition memset :: "'a \<Rightarrow> 'a blocklist \<Rightarrow> 'a blocklist" where
  "memset v bl = bl\<lparr>data := (\<lambda>a. if a < next_space bl then v else data bl a)\<rparr>"

text \<open>\<open>Tape::resetAdjoints\<close>.\<close>

definition resetAdjoints :: "Tape \<Rightarrow> Tape" where
  "resetAdjoints t =
     (if multi t then t\<lparr>myAdjointsMulti := memset 0 (myAdjointsMulti t)\<rparr>
      else t\<lparr>myNodes := (myNodes t)\<lparr>data :=
              (\<lambda>k. if k < next_space (myNodes t) then (node_at t k)\<lparr>mAdjoint := 0\<rparr> else node_at t k)\<rparr>\<rparr>)"

text \<open>\<open>Tape::begin\<close>, \<open>Tape::end\<close>, \<open>Tape::markIt\<close>, \<open>Tape::find\<close>: iterators over the nodes.\<close>

definition Tape_begin :: "Tape \<Rightarrow> nat" where
  "Tape_begin t = bl_begin (myNodes t)"

definition Tape_end :: "Tape \<Rightarrow> nat" where
  "Tape_end t = bl_end (myNodes t)"

definition markIt :: "Tape \<Rightarrow> nat" where
  "markIt t = marked_space (myNodes t)"

definition Tape_find :: "nat \<Rightarrow> Tape \<Rightarrow> nat" where
  "Tape_find node t = bl_find node (myNodes t)"

section \<open>Back-propagation of one node\<close>

text \<open>Reading and writing a \<open>double\<close> through a stored pointer.\<close>

fun deref :: "Tape \<Rightarrow> dptr \<Rightarrow> double" where
  "deref t (AdjPtr k) = mAdjoint (node_at t k)"
| "deref t (MultiPtr a) = data (myAdjointsMulti t) a"

fun store :: "dptr \<Rightarrow> double \<Rightarrow> Tape \<Rightarrow> Tape" where
  "store (AdjPtr k) v t = upd_node k (\<lambda>nd. nd\<lparr>mAdjoint := v\<rparr>) t"
| "store (MultiPtr a) v t =
     t\<lparr>myAdjointsMulti := (myAdjointsMulti t)\<lparr>data := (data (myAdjointsMulti t))(a := v)\<rparr>\<rparr>"

text \<open>\<open>pDerivatives[i]\<close> and \<open>pAdjPtrs[i]\<close> of node \<open>k\<close>.\<close>

definition derivative_at :: "Tape \<Rightarrow> nat \<Rightarrow> nat \<Rightarrow> double" where
  "derivative_at t k i = data (myDers t) (pDerivatives (node_at t k) + i)"

definition adjPtr_at :: "Tape \<Rightarrow> nat \<Rightarrow> nat \<Rightarrow> dptr" where
  "adjPtr_at t k i = data (myArgPtrs t) (pAdjPtrs (node_at t k) + i)"

text \<open>The loop body \<open>*(pAdjPtrs[i]) += pDerivatives[i] * mAdjoint\<close> of node \<open>k\<close>.\<close>

definition propagate_arg :: "nat \<Rightarrow> Tape \<Rightarrow> nat \<Rightarrow> Tape" where
  "propagate_arg k t i =
     store (adjPtr_at t k i)
       (deref t (adjPtr_at t k i) + derivative_at t k i * mAdjoint (node_at t k)) t"

text \<open>\<open>Node::propagateOne\<close> of the node at address \<open>k\<close>.\<close>

definition propagateOne :: "nat \<Rightarrow> Tape \<Rightarrow> Tape" where
  "propagateOne k t =
     (if Node_n (node_at t k) = 0 \<or> mAdjoint (node_at t k) = 0 then t
      else foldl (propagate_arg k) t [0..<Node_n (node_at t k)])"

section \<open>Number: construction\<close>

text \<open>
  \<open>Number::Number() {}\<close>: the body is empty and the members \<open>myValue\<close> and \<open>myNode\<close> have no
  initialiser, so the object keeps what its storage held; the tape is not touched.
\<close>

definition Number_default :: "Number \<Rightarrow> Tape \<Rightarrow> Number \<times> Tape" where
  "Number_default storage t = (storage, t)"

text \<open>\<open>Number::createNode<N>()\<close>.\<close>

definition createNode :: "nat \<Rightarrow> Number \<Rightarrow> Tape \<Rightarrow> (Number \<times> Tape) option" where
  "createNode N num t = do {
     (k, t') \<leftarrow> recordNode N t;
     Some (num\<lparr>myNode := Some k\<rparr>, t')
   }"

text \<open>\<open>explicit Number::Number(const double val)\<close>: a leaf.\<close>

definition Number_leaf :: "double \<Rightarrow> Tape \<Rightarrow> (Number \<times> Tape) option" where
  "Number_leaf val t = createNode 0 \<lparr>myValue = val, myNode = None\<rparr> t"

text \<open>
  \<open>Number::node()\<close> in a release build: the node pointer is dereferenced unchecked.
  Dereferencing the null pointer is undefined, here \<open>None\<close>.
\<close>

definition node :: "Number \<Rightarrow> nat option" where
  "node num = myNode num"

definition set_derivative :: "nat \<Rightarrow> nat \<Rightarrow> double \<Rightarrow> Tape \<Rightarrow> Tape" where
  "set_derivative k i v t =
     t\<lparr>myDers := (myDers t)\<lparr>data := (data (myDers t))(pDerivatives (node_at t k) + i := v)\<rparr>\<rparr>"

definition set_adjPtr :: "nat \<Rightarrow> nat \<Rightarrow> dptr \<Rightarrow> Tape \<Rightarrow> Tape" where
  "set_adjPtr k i p t =
     t\<lparr>myArgPtrs := (myArgPtrs t)\<lparr>data := (data (myArgPtrs t))(pAdjPtrs (node_at t k) + i := p)\<rparr>\<rparr>"

text \<open>The private unary constructor \<open>Number(Node &arg, const double val)\<close>.\<close>

definition Number_unary :: "nat \<Rightarrow> double \<Rightarrow> Tape \<Rightarrow> (Number \<times> Tape) option" where
  "Number_unary arg val t = do {
     (num, t1) \<leftarrow> createNode 1 \<lparr>myValue = val, myNode = None\<rparr> t;
     k \<leftarrow> myNode num;
     Some (num, set_adjPtr k 0
                  (if multi t1 then MultiPtr (pAdjoints (node_at t1 arg)) else AdjPtr arg) t1)
   }"

text \<open>The private binary constructor \<open>Number(Node &lhs, Node &rhs, const double val)\<close>.\<close>

definition Number_binary :: "nat \<Rightarrow> nat \<Rightarrow> double \<Rightarrow> Tape \<Rightarrow> (Number \<times> Tape) option" where
  "Number_binary lhs rhs val t = do {
     (num, t1) \<leftarrow> createNode 2 \<lparr>myValue = val, myNode = None\<rparr> t;
     k \<leftarrow> myNode num;
     Some (num,
       if multi t1 then
         set_adjPtr k 1 (MultiPtr (pAdjoints (node_at t1 rhs)))
           (set_adjPtr k 0 (MultiPtr (pAdjoints (node_at t1 lhs))) t1)
       else set_adjPtr k 1 (AdjPtr rhs) (set_adjPtr k 0 (AdjPtr lhs) t1))
   }"

text \<open>
  \<open>Number::derivative()\<close>, \<open>Number::lDer()\<close> and \<open>Number::rDer()\<close> return references
  into the derivative array of the number's node; the operators only assign through them.
\<close>

definition derivative :: "Number \<Rightarrow> double \<Rightarrow> Tape \<Rightarrow> Tape option" where
  "derivative num v t = do { k \<leftarrow> myNode num; Some (set_derivative k 0 v t) }"

definition lDer :: "Number \<Rightarrow> double \<Rightarrow> Tape \<Rightarrow> Tape option" where
  "lDer num v t = do { k \<leftarrow> myNode num; Some (set_derivative k 0 v t) }"

definition rDer :: "Number \<Rightarrow> double \<Rightarrow> Tape \<Rightarrow> Tape option" where
  "rDer num v t = do { k \<leftarrow> myNode num; Some (set_derivative k 1 v t) }"

text \<open>\<open>Number::adjoint()\<close>, read and assigned.\<close>

definition adjoint :: "Number \<Rightarrow> Tape \<Rightarrow> double option" where
  "adjoint num t = do { k \<leftarrow> myNode num; Some (mAdjoint (node_at t k)) }"

definition set_adjoint :: "Number \<Rightarrow> double \<Rightarrow> Tape \<Rightarrow> Tape option" where
  "set_adjoint num v t = do { k \<leftarrow> myNode num; Some (upd_node k (\<lambda>nd. nd\<lparr>mAdjoint := v\<rparr>) t) }"

section \<open>Number: the reverse sweep\<close>

text \<open>
  The static \<open>Number::propagateAdjoints(propagateFrom, propagateTo)\<close>. Dereferencing an
  iterator that is not before \<open>end\<close> and decrementing \<open>begin\<close> are undefined, here \<open>None\<close>.
\<close>

function propagateAdjoints :: "nat \<Rightarrow> nat \<Rightarrow> Tape \<Rightarrow> Tape option" where
  "propagateAdjoints it propagateTo t =
     (if \<not> it < Tape_end t then None
      else if it \<noteq> propagateTo then
        (if it = Tape_begin t then None
         else propagateAdjoints (it - 1) propagateTo (propagateOne it t))
      else Some (propagateOne it t))"
  by pat_completeness auto
termination
  by (relation "measure (\<lambda>(it, propagateTo, t). it)") (auto simp: Tape_begin_def bl_begin_def)

declare propagateAdjoints.simps [simp del]

text \<open>The method \<open>Number::propagateAdjoints(propagateTo)\<close>, which seeds the adjoint with 1.\<close>

definition Number_propagateAdjoints :: "Number \<Rightarrow> nat \<Rightarrow> Tape \<Rightarrow> Tape option" where
  "Number_propagateAdjoints num propagateTo t = do {
     t1 \<leftarrow> set_adjoint num 1 t;
     k \<leftarrow> myNode num;
     propagateAdjoints (Tape_find k t1) propagateTo t1
   }"

definition propagateToStart :: "Number \<Rightarrow> Tape \<Rightarrow> Tape option" where
  "propagateToStart num t = Number_propagateAdjoints num (Tape_begin t) t"

definition propagateToMark :: "Number \<Rightarrow> Tape \<Rightarrow> Tape option" where
  "propagateToMark num t = Number_propagateAdjoints num (markIt t) t"

section \<open>Number: the overloaded operators\<close>

text \<open>
  The functions of \<open><cmath>\<close> on the idealised doubles: \<open>exp\<close>, \<open>log\<close> (\<open>ln\<close>), \<open>sqrt\<close>,
  \<open>fabs\<close> (\<open>abs\<close>), \<open>std::max\<close>, \<open>std::min\<close> and \<open>pow\<close>.
  \<open>pow(x, y)\<close> is \<open>exp(y * ln x)\<close> for a positive base; \<open>pow(0, 0)\<close> is 1 and \<open>pow(0, y)\<close> is 0
  for a positive \<open>y\<close>; for a negative base and an integer exponent it is \<open>|x|\<close> to the
  \<open>y\<close>, negated when \<open>y\<close> is odd (\<open>pow(-2, 3) = -8\<close>). Where C returns no finite number (\<open>pow\<close>
  of 0 to a negative exponent, \<open>pow\<close> of a negative base to a non-integer exponent, \<open>log\<close> of
  a number that is not positive, \<open>sqrt\<close> of a negative number) the value of the HOL function
  stands for no value of the C function.
\<close>

definition c_pow :: "double \<Rightarrow> double \<Rightarrow> double" where
  "c_pow x y =
     (if 0 < x then x powr y
      else if x = 0 then (if y = 0 then 1 else 0)
      else if of_int \<lfloor>y\<rfloor> = y then (if even \<lfloor>y\<rfloor> then \<bar>x\<bar> powr y else - (\<bar>x\<bar> powr y))
      else 0)"




text \<open>\<open>operator+\<close>.\<close>

definition add_NN :: "Number \<Rightarrow> Number \<Rightarrow> Tape \<Rightarrow> (Number \<times> Tape) option" where
  "add_NN lhs rhs t = do {
     let e = myValue lhs + myValue rhs;
     l \<leftarrow> node lhs;
     r \<leftarrow> node rhs;
     (result, t1) \<leftarrow> Number_binary l r e t;
     t2 \<leftarrow> lDer result 1 t1;
     t3 \<leftarrow> rDer result 1 t2;
     Some (result, t3)
   }"

definition add_Nd :: "Number \<Rightarrow> double \<Rightarrow> Tape \<Rightarrow> (Number \<times> Tape) option" where
  "add_Nd lhs rhs t = do {
     let e = myValue lhs + rhs;
     l \<leftarrow> node lhs;
     (result, t1) \<leftarrow> Number_unary l e t;
     t2 \<leftarrow> derivative result 1 t1;
     Some (result, t2)
   }"

definition add_dN :: "double \<Rightarrow> Number \<Rightarrow> Tape \<Rightarrow> (Number \<times> Tape) option" where
  "add_dN lhs rhs t = add_Nd rhs lhs t"




text \<open>\<open>operator*\<close>.\<close>

definition mul_NN :: "Number \<Rightarrow> Number \<Rightarrow> Tape \<Rightarrow> (Number \<times> Tape) option" where
  "mul_NN lhs rhs t = do {
     let e = myValue lhs * myValue rhs;
     l \<leftarrow> node lhs;
     r \<leftarrow> node rhs;
     (result, t1) \<leftarrow> Number_binary l r e t;
     t2 \<leftarrow> lDer result (myValue rhs) t1;
     t3 \<leftarrow> rDer result (myValue lhs) t2;
     Some (result, t3)
   }"

definition mul_Nd :: "Number \<Rightarrow> double \<Rightarrow> Tape \<Rightarrow> (Number \<times> Tape) option" where
  "mul_Nd lhs rhs t = do {
     let e = myValue lhs * rhs;
     l \<leftarrow> node lhs;
     (result, t1) \<leftarrow> Number_unary l e t;
     t2 \<leftarrow> derivative result rhs t1;
     Some (result, t2)
   }"

definition mul_dN :: "double \<Rightarrow> Number \<Rightarrow> Tape \<Rightarrow> (Number \<times> Tape) option" where
  "mul_dN lhs rhs t = mul_Nd rhs lhs t"
















definition fabs_N :: "Number \<Rightarrow> Tape \<Rightarrow> (Number \<times> Tape) option" where
  "fabs_N arg t = do {
     let e = \<bar>myValue arg\<bar>;
     a \<leftarrow> node arg;
     (result, t1) \<leftarrow> Number_unary a e t;
     t2 \<leftarrow> derivative result (if 0 < myValue arg then 1 else - 1) t1;
     Some (result, t2)
   }"



section \<open>The second implementation: nodes that point to their arguments\<close>

















































section \<open>Programs over the operators of both implementations\<close>



















section \<open>Scenario 1\<close>

text \<open>
  \<open>x = 3.0\<close> recorded as a leaf, \<open>y = x * x + 2 * x + 1\<close>, \<open>y.propagateToStart()\<close>; the
  result is \<open>y.value()\<close> and \<open>x.adjoint()\<close>. C++ leaves open which operand of the first \<open>+\<close>
  is evaluated first: \<open>scenario_1\<close> records \<open>x * x\<close> before \<open>2 * x\<close>,
  \<open>scenario_1_right_first\<close> records \<open>2 * x\<close> before \<open>x * x\<close>.
\<close>

definition scenario_1 :: "Tape \<Rightarrow> (double \<times> double) option" where
  "scenario_1 t0 = do {
     (x, t1) \<leftarrow> Number_leaf 3 t0;
     (xx, t2) \<leftarrow> mul_NN x x t1;
     (x2, t3) \<leftarrow> mul_dN 2 x t2;
     (s, t4) \<leftarrow> add_NN xx x2 t3;
     (y, t5) \<leftarrow> add_Nd s 1 t4;
     t6 \<leftarrow> propagateToStart y t5;
     xa \<leftarrow> adjoint x t6;
     Some (myValue y, xa)
   }"

definition scenario_1_right_first :: "Tape \<Rightarrow> (double \<times> double) option" where
  "scenario_1_right_first t0 = do {
     (x, t1) \<leftarrow> Number_leaf 3 t0;
     (x2, t2) \<leftarrow> mul_dN 2 x t1;
     (xx, t3) \<leftarrow> mul_NN x x t2;
     (s, t4) \<leftarrow> add_NN xx x2 t3;
     (y, t5) \<leftarrow> add_Nd s 1 t4;
     t6 \<leftarrow> propagateToStart y t5;
     xa \<leftarrow> adjoint x t6;
     Some (myValue y, xa)
   }"

section \<open>Vocabulary of the statements\<close>

text \<open>
  The address of the adjoint storage of the node at \<open>i\<close>: \<open>&mAdjoint\<close> of that node in
  single-output mode, its \<open>pAdjoints\<close> in multi-output mode.
\<close>

definition adjoint_address :: "Tape \<Rightarrow> nat \<Rightarrow> dptr" where
  "adjoint_address t i = (if multi t then MultiPtr (pAdjoints (node_at t i)) else AdjPtr i)"

text \<open>
  \<open>records_unary res t a v d\<close>: run on the tape \<open>t\<close>, an operator returned \<open>res\<close>, a number
  of value \<open>v\<close> whose node is the one new node of the tape, of arity 1, with the local
  derivative \<open>d\<close> paired with a pointer to the adjoint of the node of \<open>a\<close>.
\<close>

definition records_unary :: "(Number \<times> Tape) option \<Rightarrow> Tape \<Rightarrow> Number \<Rightarrow> double \<Rightarrow> double \<Rightarrow> bool" where
  "records_unary res t a v d =
     (case res of
        None \<Rightarrow> False
      | Some (r, t') \<Rightarrow>
          (case myNode a of
             None \<Rightarrow> False
           | Some i \<Rightarrow>
               (let k = next_space (myNodes t) in
                myValue r = v \<and> myNode r = Some k \<and> next_space (myNodes t') = Suc k \<and>
                Node_n (node_at t' k) = 1 \<and>
                derivative_at t' k 0 = d \<and> adjPtr_at t' k 0 = adjoint_address t i)))"

text \<open>
  \<open>records_binary res t a b v dl dr\<close>: the same for a node of arity 2, with \<open>dl\<close> paired
  with the adjoint of the node of \<open>a\<close> and \<open>dr\<close> with the adjoint of the node of \<open>b\<close>.
\<close>

definition records_binary ::
  "(Number \<times> Tape) option \<Rightarrow> Tape \<Rightarrow> Number \<Rightarrow> Number \<Rightarrow> double \<Rightarrow> double \<Rightarrow> double \<Rightarrow> bool" where
  "records_binary res t a b v dl dr =
     (case res of
        None \<Rightarrow> False
      | Some (r, t') \<Rightarrow>
          (case (myNode a, myNode b) of
             (Some i, Some j) \<Rightarrow>
               (let k = next_space (myNodes t) in
                myValue r = v \<and> myNode r = Some k \<and> next_space (myNodes t') = Suc k \<and>
                Node_n (node_at t' k) = 2 \<and>
                derivative_at t' k 0 = dl \<and> adjPtr_at t' k 0 = adjoint_address t i \<and>
                derivative_at t' k 1 = dr \<and> adjPtr_at t' k 1 = adjoint_address t j)
           | _ \<Rightarrow> False))"

text \<open>A number is on the tape when its node pointer is the address of a recorded node.\<close>

definition on_tape :: "Number \<Rightarrow> Tape \<Rightarrow> bool" where
  "on_tape a t = (case myNode a of None \<Rightarrow> False | Some i \<Rightarrow> i < next_space (myNodes t))"

text \<open>
  Recording is possible: in multi-output mode the \<open>numAdj\<close> adjoints of a node have to fit
  into one block of \<open>myAdjointsMulti\<close>.
\<close>

definition can_record :: "Tape \<Rightarrow> bool" where
  "can_record t = (if multi t then numAdj t \<le> ADJSIZE else True)"

text \<open>An example: a tape in single-output mode that holds two leaves, and numbers on it.\<close>

definition zero_node :: Node where
  "zero_node = \<lparr>Node_n = 0, mAdjoint = 0, pAdjoints = 0, pDerivatives = 0, pAdjPtrs = 0\<rparr>"

definition two_leaves :: Tape where
  "two_leaves =
     \<lparr>multi = False, numAdj = 1,
      myAdjointsMulti = \<lparr>data = (\<lambda>_. 0), next_space = 5, marked_space = 0\<rparr>,
      myDers = \<lparr>data = (\<lambda>_. 0), next_space = 0, marked_space = 0\<rparr>,
      myArgPtrs = \<lparr>data = (\<lambda>_. AdjPtr 0), next_space = 0, marked_space = 0\<rparr>,
      myNodes = \<lparr>data = (\<lambda>_. zero_node), next_space = 2, marked_space = 0\<rparr>\<rparr>"

definition num0 :: "double \<Rightarrow> Number" where
  "num0 v = \<lparr>myValue = v, myNode = Some 0\<rparr>"

definition num1 :: "double \<Rightarrow> Number" where
  "num1 v = \<lparr>myValue = v, myNode = Some 1\<rparr>"

text \<open>
  Seeding the adjoint of the node at \<open>out\<close> with \<open>\<alpha>\<close> on a tape whose adjoints were all
  reset to 0 (\<open>adjoint() = \<alpha>\<close> after \<open>resetAdjoints\<close>), then the static sweep from that
  node down to \<open>propagateTo\<close>.
\<close>

definition seeded_sweep :: "double \<Rightarrow> nat \<Rightarrow> nat \<Rightarrow> Tape \<Rightarrow> Tape option" where
  "seeded_sweep \<alpha> out propagateTo t =
     propagateAdjoints out propagateTo (upd_node out (\<lambda>nd. nd\<lparr>mAdjoint := \<alpha>\<rparr>) (resetAdjoints t))"

text \<open>
  The tape with every adjoint (the scalars inside the nodes and the storage of the
  multi-output adjoints) overwritten by 0: two tapes that agree after \<open>erase_adjoints\<close> differ
  in adjoints only.
\<close>

definition erase_adjoints :: "Tape \<Rightarrow> Tape" where
  "erase_adjoints t =
     t\<lparr>myNodes := (myNodes t)\<lparr>data := (\<lambda>k. (node_at t k)\<lparr>mAdjoint := 0\<rparr>)\<rparr>,
       myAdjointsMulti := (myAdjointsMulti t)\<lparr>data := (\<lambda>_. 0)\<rparr>\<rparr>"

text \<open>No argument pointer of the node at \<open>k\<close> is the address of its own scalar adjoint.\<close>

definition no_self_pointer :: "Tape \<Rightarrow> nat \<Rightarrow> bool" where
  "no_self_pointer t k = list_all (\<lambda>i. adjPtr_at t k i \<noteq> AdjPtr k) [0..<Node_n (node_at t k)]"

text \<open>
  What the double at \<open>p\<close> receives from the node at \<open>k\<close>: the sum of
  \<open>pDerivatives[i] * mAdjoint\<close> over the arguments \<open>i\<close> whose pointer \<open>pAdjPtrs[i]\<close> is \<open>p\<close>.
\<close>

definition received :: "Tape \<Rightarrow> nat \<Rightarrow> dptr \<Rightarrow> double" where
  "received t k p =
     sum_list (map (\<lambda>i. if adjPtr_at t k i = p then derivative_at t k i * mAdjoint (node_at t k) else 0)
                [0..<Node_n (node_at t k)])"



text \<open>
  An example: a leaf, and a binary node with both arguments on the leaf, both local
  derivatives 3 and the adjoint 1 (the tape of \<open>x * x\<close> at \<open>x = 3\<close>, seeded).
\<close>

definition square_tape :: Tape where
  "square_tape =
     \<lparr>multi = False, numAdj = 1,
      myAdjointsMulti = \<lparr>data = (\<lambda>_. 0), next_space = 0, marked_space = 0\<rparr>,
      myDers = \<lparr>data = (\<lambda>_. 3), next_space = 2, marked_space = 0\<rparr>,
      myArgPtrs = \<lparr>data = (\<lambda>_. AdjPtr 0), next_space = 2, marked_space = 0\<rparr>,
      myNodes = \<lparr>data = (\<lambda>_. zero_node)
                  (1 := \<lparr>Node_n = 2, mAdjoint = 1, pAdjoints = 0, pDerivatives = 0, pAdjPtrs = 0\<rparr>),
                next_space = 2, marked_space = 0\<rparr>\<rparr>"

text \<open>A tape in single-output mode that holds no node, as a new tape does.\<close>

definition empty_single :: "Tape \<Rightarrow> bool" where
  "empty_single t \<longleftrightarrow> \<not> multi t \<and> next_space (myNodes t) = 0"

text \<open>An example of such a tape, and scenario 1 as a program.\<close>

definition new_tape :: Tape where
  "new_tape =
     \<lparr>multi = False, numAdj = 1,
      myAdjointsMulti = \<lparr>data = (\<lambda>_. 0), next_space = 0, marked_space = 0\<rparr>,
      myDers = \<lparr>data = (\<lambda>_. 0), next_space = 0, marked_space = 0\<rparr>,
      myArgPtrs = \<lparr>data = (\<lambda>_. AdjPtr 0), next_space = 0, marked_space = 0\<rparr>,
      myNodes = \<lparr>data = (\<lambda>_. zero_node), next_space = 0, marked_space = 0\<rparr>\<rparr>"


section \<open>Rounded arithmetic\<close>



text \<open>
  \<open>Node::propagateOne\<close> and the static \<open>Number::propagateAdjoints\<close> once more, with the
  product \<open>pDerivatives[i] * mAdjoint\<close> and the sum of \<open>+=\<close> rounded by \<open>rnd\<close>: with \<open>fl\<close> for
  \<open>rnd\<close> this is the sweep on doubles, with the identity it is the sweep in exact arithmetic
  of the sections above.
\<close>

definition propagate_arg_rounded :: "(real \<Rightarrow> real) \<Rightarrow> nat \<Rightarrow> Tape \<Rightarrow> nat \<Rightarrow> Tape" where
  "propagate_arg_rounded rnd k t i =
     store (adjPtr_at t k i)
       (rnd (deref t (adjPtr_at t k i) + rnd (derivative_at t k i * mAdjoint (node_at t k)))) t"

definition propagateOne_rounded :: "(real \<Rightarrow> real) \<Rightarrow> nat \<Rightarrow> Tape \<Rightarrow> Tape" where
  "propagateOne_rounded rnd k t =
     (if Node_n (node_at t k) = 0 \<or> mAdjoint (node_at t k) = 0 then t
      else foldl (propagate_arg_rounded rnd k) t [0..<Node_n (node_at t k)])"

function propagateAdjoints_rounded :: "(real \<Rightarrow> real) \<Rightarrow> nat \<Rightarrow> nat \<Rightarrow> Tape \<Rightarrow> Tape option" where
  "propagateAdjoints_rounded rnd it propagateTo t =
     (if \<not> it < Tape_end t then None
      else if it \<noteq> propagateTo then
        (if it = Tape_begin t then None
         else propagateAdjoints_rounded rnd (it - 1) propagateTo (propagateOne_rounded rnd it t))
      else Some (propagateOne_rounded rnd it t))"
  by pat_completeness auto
termination
  by (relation "measure (\<lambda>(rnd, it, propagateTo, t). it)") (auto simp: Tape_begin_def bl_begin_def)

declare propagateAdjoints_rounded.simps [simp del]

definition seeded_sweep_rounded :: "(real \<Rightarrow> real) \<Rightarrow> double \<Rightarrow> nat \<Rightarrow> nat \<Rightarrow> Tape \<Rightarrow> Tape option" where
  "seeded_sweep_rounded rnd \<alpha> out propagateTo t =
     propagateAdjoints_rounded rnd out propagateTo
       (upd_node out (\<lambda>nd. nd\<lparr>mAdjoint := \<alpha>\<rparr>) (resetAdjoints t))"

text \<open>
  Multiplying by \<open>\<alpha>\<close> commutes with the rounding: \<open>rnd (\<alpha> * x) = \<alpha> * rnd x\<close> for every \<open>x\<close>.
  This holds of every \<open>\<alpha>\<close> for the identity, and of 0 and of the powers of two for \<open>fl\<close>.
\<close>

definition scales_exactly :: "(real \<Rightarrow> real) \<Rightarrow> real \<Rightarrow> bool" where
  "scales_exactly rnd \<alpha> \<longleftrightarrow> (\<forall>x. rnd (\<alpha> * x) = \<alpha> * rnd x)"



section \<open>Special values\<close>

text \<open>
  The arithmetic of doubles as far as the special values go: a double is a finite number
  (\<open>Fin 0\<close> is \<open>+0.0\<close>), \<open>-0.0\<close>, an infinity or NaN. The rounding and the overflow of a finite
  result are left out here.
\<close>

datatype ieee = Fin real | NegZero | PosInf | NegInf | NaN


fun is_zero :: "ieee \<Rightarrow> bool" where
  "is_zero (Fin x) = (x = 0)"
| "is_zero NegZero = True"
| "is_zero PosInf = False"
| "is_zero NegInf = False"
| "is_zero NaN = False"




text \<open>
  \<open>a < b\<close> on doubles: false when either is NaN; the two zeros are equal; the infinities
  lie below and above every finite number.
\<close>

fun extended :: "ieee \<Rightarrow> int \<times> real" where
  "extended (Fin x) = (0, x)"
| "extended NegZero = (0, 0)"
| "extended PosInf = (1, 0)"
| "extended NegInf = (- 1, 0)"
| "extended NaN = (0, 0)"

definition ieee_less :: "ieee \<Rightarrow> ieee \<Rightarrow> bool" where
  "ieee_less a b =
     (a \<noteq> NaN \<and> b \<noteq> NaN \<and>
      (fst (extended a) < fst (extended b) \<or>
       fst (extended a) = fst (extended b) \<and> snd (extended a) < snd (extended b)))"



text \<open>
  The value that \<open>max\<close> of two numbers, \<open>operator/\<close> of a double and a number, \<open>exp\<close> and
  \<open>min\<close> of a number and a double return in the first implementation: \<open>max\<close> and \<open>min\<close>
  select by \<open>lhs > rhs ? lhs : rhs\<close> and by \<open>lhs < rhs ? lhs : rhs\<close>.
\<close>

definition max_NN_value :: "ieee \<Rightarrow> ieee \<Rightarrow> ieee" where
  "max_NN_value lhs rhs = (if ieee_less rhs lhs then lhs else rhs)"



definition min_Nd_value :: "ieee \<Rightarrow> ieee \<Rightarrow> ieee" where
  "min_Nd_value lhs rhs = (if ieee_less lhs rhs then lhs else rhs)"

text \<open>
  The same in the second implementation, where \<open>max\<close> and \<open>min\<close> return \<open>std::max(lhs, rhs)\<close>
  and \<open>std::min(lhs, rhs)\<close>: \<open>std::max(a, b)\<close> is \<open>a < b ? b : a\<close> and \<open>std::min(a, b)\<close> is
  \<open>b < a ? b : a\<close>.
\<close>

definition std_max :: "ieee \<Rightarrow> ieee \<Rightarrow> ieee" where
  "std_max a b = (if ieee_less a b then b else a)"

definition std_min :: "ieee \<Rightarrow> ieee \<Rightarrow> ieee" where
  "std_min a b = (if ieee_less b a then b else a)"

definition max_NN_value1 :: "ieee \<Rightarrow> ieee \<Rightarrow> ieee" where
  "max_NN_value1 lhs rhs = std_max lhs rhs"



definition min_Nd_value1 :: "ieee \<Rightarrow> ieee \<Rightarrow> ieee" where
  "min_Nd_value1 lhs rhs = std_min lhs rhs"

section \<open>An abstract tape\<close>

text \<open>
  Both implementations are compared through what their tapes have in common: per node the
  list of its arguments (the position of the argument's node and the local derivative) and
  its adjoint. \<open>a_propagateOne\<close> and \<open>a_sweep\<close> are the back-propagation of one node and the
  sweep on this view; \<open>abstract\<close> reads the view off a tape of the first implementation,
  \<open>abstract1\<close> off a tape of the second. \<open>wf_tape\<close> and \<open>wf_tape1\<close>: the tape is in single-output
  mode, the arrays of a node lie in the allocated part of the block-lists, and every
  argument pointer is the address of the adjoint of an earlier node.
\<close>

record anode =
  a_args :: "(nat \<times> double) list"
  a_adj :: double

type_synonym atape = "anode list"

definition a_add :: "nat \<Rightarrow> double \<Rightarrow> atape \<Rightarrow> atape" where
  "a_add j x M = M[j := (M ! j)\<lparr>a_adj := a_adj (M ! j) + x\<rparr>]"

definition a_propagateOne :: "nat \<Rightarrow> atape \<Rightarrow> atape" where
  "a_propagateOne k M = foldl (\<lambda>M' (j, d). a_add j (d * a_adj (M' ! k)) M') M (a_args (M ! k))"

definition a_sweep :: "nat \<Rightarrow> nat \<Rightarrow> atape \<Rightarrow> atape" where
  "a_sweep it propagateTo M = foldl (\<lambda>M' k. a_propagateOne k M') M (rev [propagateTo..<Suc it])"

fun ptr_index :: "dptr \<Rightarrow> nat" where
  "ptr_index (AdjPtr j) = j"
| "ptr_index (MultiPtr a) = a"

definition view :: "Tape \<Rightarrow> nat \<Rightarrow> anode" where
  "view t k =
     \<lparr>a_args = map (\<lambda>i. (ptr_index (adjPtr_at t k i), derivative_at t k i)) [0..<Node_n (node_at t k)],
      a_adj = mAdjoint (node_at t k)\<rparr>"

definition abstract :: "Tape \<Rightarrow> atape" where
  "abstract t = map (view t) [0..<next_space (myNodes t)]"

definition wf_tape :: "Tape \<Rightarrow> bool" where
  "wf_tape t \<longleftrightarrow>
     \<not> multi t \<and>
     (\<forall>k<next_space (myNodes t). \<forall>i<Node_n (node_at t k).
        pDerivatives (node_at t k) + i < next_space (myDers t) \<and>
        pAdjPtrs (node_at t k) + i < next_space (myArgPtrs t) \<and>
        (\<exists>j<k. adjPtr_at t k i = AdjPtr j))"






text \<open>
  The pattern every operator follows: the value \<open>e\<close> and the local derivatives are computed,
  a unary or a binary node is recorded and the derivatives are stored; in the first
  implementation (\<open>unary_op\<close>, \<open>binary_op\<close>) and in the second (\<open>unary_op1\<close>, \<open>binary_op1\<close>).
  \<open>rec_tape N d a t\<close> is the tape after \<open>recordNode<N>\<close> in single-output mode, with the
  arrays of the new node at \<open>d\<close> and \<open>a\<close>.
\<close>

definition unary_op :: "Number \<Rightarrow> double \<Rightarrow> double \<Rightarrow> Tape \<Rightarrow> (Number \<times> Tape) option" where
  "unary_op arg e d t = do {
     a \<leftarrow> node arg;
     (result, t1) \<leftarrow> Number_unary a e t;
     t2 \<leftarrow> derivative result d t1;
     Some (result, t2)
   }"

definition binary_op ::
  "Number \<Rightarrow> Number \<Rightarrow> double \<Rightarrow> double \<Rightarrow> double \<Rightarrow> Tape \<Rightarrow> (Number \<times> Tape) option" where
  "binary_op lhs rhs e dl dr t = do {
     l \<leftarrow> node lhs;
     r \<leftarrow> node rhs;
     (result, t1) \<leftarrow> Number_binary l r e t;
     t2 \<leftarrow> lDer result dl t1;
     t3 \<leftarrow> rDer result dr t2;
     Some (result, t3)
   }"

definition rec_tape :: "nat \<Rightarrow> nat \<Rightarrow> nat \<Rightarrow> Tape \<Rightarrow> Tape" where
  "rec_tape N d a t =
     t\<lparr>myNodes := (myNodes t)
          \<lparr>data := (node_at t)(next_space (myNodes t) :=
              (node_at t (next_space (myNodes t)))
                \<lparr>Node_n := N, mAdjoint := 0, pDerivatives := d, pAdjPtrs := a\<rparr>),
           next_space := Suc (next_space (myNodes t))\<rparr>,
       myDers := (myDers t)\<lparr>next_space := d + N\<rparr>,
       myArgPtrs := (myArgPtrs t)\<lparr>next_space := a + N\<rparr>\<rparr>"








section \<open>Facts about recording\<close>

lemmas record_defs =
  recordNode_def emplace_back_def emplace_back_multi_def DATASIZE_def ADJSIZE_def Let_def
  createNode_def Node_ctor_def Number_binary_def Number_unary_def node_def
  lDer_def rDer_def derivative_def set_derivative_def set_adjPtr_def
  upd_node_def adjPtr_at_def derivative_at_def fill_def
  records_unary_def records_binary_def adjoint_address_def on_tape_def can_record_def

lemmas example_defs = two_leaves_def num0_def num1_def zero_node_def

section \<open>The operators\<close>

text \<open>\<open>pow\<close> at a negative base and at \<open>pow(0, 0)\<close>, and as the real power at a positive base.\<close>

lemma c_pow_values: "c_pow (- 2) 3 = - 8 \<and> c_pow (- 2) 2 = 4 \<and> c_pow 0 0 = 1 \<and> c_pow 2 3 = 8"
  by (simp add: c_pow_def)

lemma c_pow_positive: "0 < x \<Longrightarrow> c_pow x y = x powr y"
  by (simp add: c_pow_def)



text \<open>
  C6, as the code has it. For a number \<open>a\<close> on the tape, \<open>fabs(a)\<close> returns a number of value
  \<open>|a|\<close> and records one unary node whose local derivative is \<open>+1\<close> when the value of \<open>a\<close> is
  greater than 0 and \<open>-1\<close> otherwise, so \<open>-1\<close> at exactly 0.
\<close>

theorem fabs_records_unary:
  assumes "on_tape a t" and "can_record t"
  shows "records_unary (fabs_N a t) t a \<bar>myValue a\<bar> (if 0 < myValue a then 1 else - 1)"
proof -
  from assms obtain i where "myNode a = Some i" "i < next_space (myNodes t)"
    by (auto simp: on_tape_def split: option.splits)
  then show ?thesis
    using assms(2) by (cases "multi t") (simp_all add: fabs_N_def record_defs)
qed

theorem fabs_records_unary_witness:
  "on_tape (num0 0) two_leaves \<and> can_record two_leaves \<and>
   records_unary (fabs_N (num0 0) two_leaves) two_leaves (num0 0) 0 (- 1)"
proof -
  have h: "on_tape (num0 0) two_leaves" "can_record two_leaves"
    by (simp_all add: on_tape_def can_record_def example_defs)
  show ?thesis
    using h fabs_records_unary [OF h] by (simp add: num0_def)
qed

text \<open>
  C6, as the claim has it, fails at the value 0: the claim asks for the derivative \<open>+1\<close>
  whenever the value is at least 0, and the node recorded for \<open>fabs\<close> of 0 holds \<open>-1\<close>.
\<close>

theorem fabs_at_zero_counterexample:
  "\<not> records_unary (fabs_N (num0 0) two_leaves) two_leaves (num0 0) \<bar>myValue (num0 0)\<bar>
       (if 0 \<le> myValue (num0 0) then 1 else - 1)"
  by (simp add: fabs_N_def record_defs example_defs)

text \<open>
  C10. For a double \<open>c\<close> and a number \<open>a\<close> on the tape, \<open>c + a\<close> is \<open>a + c\<close> and \<open>c * a\<close> is
  \<open>a * c\<close>: the same number and the same tape are returned, one unary node is recorded, its
  argument pointer is the address of the adjoint of \<open>a\<close>, its local derivative is 1 for the
  sum and \<open>c\<close> for the product.
\<close>

theorem add_mul_double_commute:
  assumes "on_tape a t" and "can_record t"
  shows "add_dN c a t = add_Nd a c t \<and>
         records_unary (add_dN c a t) t a (myValue a + c) 1 \<and>
         records_unary (add_Nd a c t) t a (myValue a + c) 1 \<and>
         mul_dN c a t = mul_Nd a c t \<and>
         records_unary (mul_dN c a t) t a (myValue a * c) c \<and>
         records_unary (mul_Nd a c t) t a (myValue a * c) c"
proof -
  from assms obtain i where i: "myNode a = Some i" "i < next_space (myNodes t)"
    by (auto simp: on_tape_def split: option.splits)
  have "records_unary (add_Nd a c t) t a (myValue a + c) 1"
    using i assms(2) by (cases "multi t") (simp_all add: add_Nd_def record_defs)
  moreover have "records_unary (mul_Nd a c t) t a (myValue a * c) c"
    using i assms(2) by (cases "multi t") (simp_all add: mul_Nd_def record_defs)
  ultimately show ?thesis by (simp add: add_dN_def mul_dN_def)
qed

theorem add_mul_double_commute_witness:
  "on_tape (num1 3) two_leaves \<and> can_record two_leaves \<and>
   add_dN 2 (num1 3) two_leaves = add_Nd (num1 3) 2 two_leaves \<and>
   records_unary (add_dN 2 (num1 3) two_leaves) two_leaves (num1 3) 5 1 \<and>
   mul_dN 2 (num1 3) two_leaves = mul_Nd (num1 3) 2 two_leaves \<and>
   records_unary (mul_dN 2 (num1 3) two_leaves) two_leaves (num1 3) 6 2"
proof -
  have h: "on_tape (num1 3) two_leaves" "can_record two_leaves"
    by (simp_all add: on_tape_def can_record_def example_defs)
  show ?thesis
    using h add_mul_double_commute [OF h, of 2] by (simp add: num1_def)
qed

section \<open>Default construction\<close>

text \<open>
  C5, as the code has it. The default constructor writes nothing to the tape and
  initialises neither member: the value and the node pointer of the new number are what the
  storage of the object held before.
\<close>

theorem Number_default_keeps_storage:
  "snd (Number_default storage t) = t \<and>
   myValue (fst (Number_default storage t)) = myValue storage \<and>
   myNode (fst (Number_default storage t)) = myNode storage"
  by (simp add: Number_default_def)

text \<open>
  C5, as the claim has it, fails on storage that held the value 3 and a non-null pointer:
  the new number does not have the value 0 and a null node pointer.
\<close>

theorem Number_default_counterexample:
  "\<not> (myValue (fst (Number_default (num0 3) two_leaves)) = 0 \<and>
      myNode (fst (Number_default (num0 3) two_leaves)) = None \<and>
      snd (Number_default (num0 3) two_leaves) = two_leaves)"
  by (simp add: Number_default_def num0_def)

section \<open>Marks\<close>

text \<open>
  C7, as the code has it. \<open>mark\<close> saves and \<open>rewindToMark\<close> restores the cursor of the
  block-lists of the derivatives, of the argument pointers and of the nodes in both modes;
  the block-list of the multi-output adjoints is marked and rewound in multi-output mode
  only, and is left as it is in single-output mode.
\<close>

theorem mark_rewindToMark_lists:
  "marked_space (myDers (mark t)) = next_space (myDers t) \<and>
   marked_space (myArgPtrs (mark t)) = next_space (myArgPtrs t) \<and>
   marked_space (myNodes (mark t)) = next_space (myNodes t) \<and>
   (if multi t
    then marked_space (myAdjointsMulti (mark t)) = next_space (myAdjointsMulti t)
    else myAdjointsMulti (mark t) = myAdjointsMulti t) \<and>
   next_space (myDers (rewindToMark t)) = marked_space (myDers t) \<and>
   next_space (myArgPtrs (rewindToMark t)) = marked_space (myArgPtrs t) \<and>
   next_space (myNodes (rewindToMark t)) = marked_space (myNodes t) \<and>
   (if multi t
    then next_space (myAdjointsMulti (rewindToMark t)) = marked_space (myAdjointsMulti t)
    else myAdjointsMulti (rewindToMark t) = myAdjointsMulti t)"
  by (simp add: mark_def rewindToMark_def setmark_def rewind_to_mark_def Let_def)

text \<open>
  C7, as the claim has it, fails in single-output mode: on the example tape the cursor of
  the multi-output adjoints is 5 and its mark is 0; after \<open>mark\<close> the mark is not the cursor.
\<close>

theorem mark_single_mode_counterexample:
  "\<not> (marked_space (myAdjointsMulti (mark two_leaves)) = next_space (myAdjointsMulti two_leaves) \<and>
      marked_space (myDers (mark two_leaves)) = next_space (myDers two_leaves) \<and>
      marked_space (myArgPtrs (mark two_leaves)) = next_space (myArgPtrs two_leaves) \<and>
      marked_space (myNodes (mark two_leaves)) = next_space (myNodes two_leaves))"
  by (simp add: mark_def setmark_def Let_def two_leaves_def)

section \<open>Back-propagation writes adjoints only\<close>

lemma erase_store: "erase_adjoints (store p v t) = erase_adjoints t"
  by (cases p) (auto simp: erase_adjoints_def upd_node_def fun_eq_iff)

lemma deref_store: "deref (store q v t) p = (if p = q then v else deref t p)"
  by (cases p; cases q) (auto simp: upd_node_def)

lemma erase_eq_fields:
  assumes "erase_adjoints s = erase_adjoints t"
  shows "myDers s = myDers t" "myArgPtrs s = myArgPtrs t" "multi s = multi t" "numAdj s = numAdj t"
    "next_space (myNodes s) = next_space (myNodes t)"
    "marked_space (myNodes s) = marked_space (myNodes t)"
    "next_space (myAdjointsMulti s) = next_space (myAdjointsMulti t)"
    "marked_space (myAdjointsMulti s) = marked_space (myAdjointsMulti t)"
    "Node_n (node_at s j) = Node_n (node_at t j)"
    "pDerivatives (node_at s j) = pDerivatives (node_at t j)"
    "pAdjPtrs (node_at s j) = pAdjPtrs (node_at t j)"
    "pAdjoints (node_at s j) = pAdjoints (node_at t j)"
proof -
  have a: "f (erase_adjoints s) = f (erase_adjoints t)" for f :: "Tape \<Rightarrow> 'x"
    using assms by simp
  show "myDers s = myDers t" using a [of myDers] by (simp add: erase_adjoints_def)
  show "myArgPtrs s = myArgPtrs t" using a [of myArgPtrs] by (simp add: erase_adjoints_def)
  show "multi s = multi t" using a [of multi] by (simp add: erase_adjoints_def)
  show "numAdj s = numAdj t" using a [of numAdj] by (simp add: erase_adjoints_def)
  show "next_space (myNodes s) = next_space (myNodes t)"
    using a [of "\<lambda>x. next_space (myNodes x)"] by (simp add: erase_adjoints_def)
  show "marked_space (myNodes s) = marked_space (myNodes t)"
    using a [of "\<lambda>x. marked_space (myNodes x)"] by (simp add: erase_adjoints_def)
  show "next_space (myAdjointsMulti s) = next_space (myAdjointsMulti t)"
    using a [of "\<lambda>x. next_space (myAdjointsMulti x)"] by (simp add: erase_adjoints_def)
  show "marked_space (myAdjointsMulti s) = marked_space (myAdjointsMulti t)"
    using a [of "\<lambda>x. marked_space (myAdjointsMulti x)"] by (simp add: erase_adjoints_def)
  have b: "(node_at s j)\<lparr>mAdjoint := 0\<rparr> = (node_at t j)\<lparr>mAdjoint := 0\<rparr>"
    using a [of "\<lambda>x. node_at x j"] by (simp add: erase_adjoints_def)
  have c: "f ((node_at s j)\<lparr>mAdjoint := 0\<rparr>) = f ((node_at t j)\<lparr>mAdjoint := 0\<rparr>)" for f :: "Node \<Rightarrow> nat"
    using b by simp
  show "Node_n (node_at s j) = Node_n (node_at t j)" using c [of Node_n] by simp
  show "pDerivatives (node_at s j) = pDerivatives (node_at t j)" using c [of pDerivatives] by simp
  show "pAdjPtrs (node_at s j) = pAdjPtrs (node_at t j)" using c [of pAdjPtrs] by simp
  show "pAdjoints (node_at s j) = pAdjoints (node_at t j)" using c [of pAdjoints] by simp
qed

lemma erase_eq_at:
  assumes "erase_adjoints s = erase_adjoints t"
  shows "adjPtr_at s k i = adjPtr_at t k i" "derivative_at s k i = derivative_at t k i"
  using erase_eq_fields [OF assms] by (simp_all add: adjPtr_at_def derivative_at_def)

lemma foldl_propagate_arg:
  assumes "\<forall>i<m. adjPtr_at t k i \<noteq> AdjPtr k"
  shows "erase_adjoints (foldl (propagate_arg k) t [0..<m]) = erase_adjoints t \<and>
         (\<forall>p. deref (foldl (propagate_arg k) t [0..<m]) p =
               deref t p + sum_list (map (\<lambda>i. if adjPtr_at t k i = p
                     then derivative_at t k i * mAdjoint (node_at t k) else 0) [0..<m]))"
  using assms
proof (induction m)
  case 0
  then show ?case by simp
next
  case (Suc m)
  let ?s = "foldl (propagate_arg k) t [0..<m]"
  from Suc have er: "erase_adjoints ?s = erase_adjoints t"
    and dr: "\<And>p. deref ?s p = deref t p + sum_list (map (\<lambda>i. if adjPtr_at t k i = p
                     then derivative_at t k i * mAdjoint (node_at t k) else 0) [0..<m])"
    by simp_all
  from Suc.prems have ne: "adjPtr_at t k m \<noteq> AdjPtr k" and ne': "\<forall>i<m. adjPtr_at t k i \<noteq> AdjPtr k" by simp_all
  have own: "mAdjoint (node_at ?s k) = mAdjoint (node_at t k)"
  proof -
    have "sum_list (map (\<lambda>i. if adjPtr_at t k i = AdjPtr k
                     then derivative_at t k i * mAdjoint (node_at t k) else 0) [0..<m]) = 0"
      using ne' by (induction m) simp_all
    with dr [of "AdjPtr k"] show ?thesis by simp
  qed
  have step: "foldl (propagate_arg k) t [0..<Suc m] = propagate_arg k ?s m" by simp
  show ?case
    unfolding step
    by (simp add: propagate_arg_def erase_store er deref_store erase_eq_at [OF er] own dr)
qed

lemma erase_foldl_propagate_arg:
  "erase_adjoints (foldl (propagate_arg k) t xs) = erase_adjoints t"
  by (induction xs arbitrary: t) (simp_all add: propagate_arg_def erase_store)

lemma erase_propagateOne: "erase_adjoints (propagateOne k t) = erase_adjoints t"
  by (simp add: propagateOne_def erase_foldl_propagate_arg)

lemma Tape_end_propagateOne: "Tape_end (propagateOne k t) = Tape_end t"
  using erase_eq_fields(5) [OF erase_propagateOne] by (simp add: Tape_end_def bl_end_def)

lemma propagateAdjoints_foldl:
  "propagateTo \<le> it \<Longrightarrow> it < Tape_end t \<Longrightarrow>
   propagateAdjoints it propagateTo t =
     Some (foldl (\<lambda>s k. propagateOne k s) t (rev [propagateTo..<Suc it]))"
proof (induction it propagateTo t rule: propagateAdjoints.induct)
  case (1 it propagateTo t)
  show ?case
  proof (cases "it = propagateTo")
    case True
    with "1.prems" show ?thesis
      by (subst propagateAdjoints.simps) simp
  next
    case False
    with "1.prems" have lt: "propagateTo < it" by simp
    then have nb: "it \<noteq> Tape_begin t" by (simp add: Tape_begin_def bl_begin_def)
    have le: "propagateTo \<le> it - 1" using lt by simp
    have en: "it - 1 < Tape_end (propagateOne it t)"
      using "1.prems" by (simp add: Tape_end_propagateOne)
    have ih: "propagateAdjoints (it - 1) propagateTo (propagateOne it t) =
        Some (foldl (\<lambda>s k. propagateOne k s) (propagateOne it t) (rev [propagateTo..<Suc (it - 1)]))"
      using "1.IH" [OF _ False nb le en] "1.prems" by simp
    have "Suc (it - 1) = it" using lt by simp
    then have r: "rev [propagateTo..<Suc it] = it # rev [propagateTo..<Suc (it - 1)]"
      using lt by simp
    have "propagateAdjoints it propagateTo t = propagateAdjoints (it - 1) propagateTo (propagateOne it t)"
      using "1.prems" False nb by (subst propagateAdjoints.simps) simp
    then show ?thesis by (simp only: ih r foldl_Cons)
  qed
qed

lemma sum_list_map_zero: "(\<And>x. x \<in> set xs \<Longrightarrow> f x = (0::real)) \<Longrightarrow> sum_list (map f xs) = 0"
  by (induction xs) simp_all

text \<open>
  C2. \<open>propagateOne\<close> returns the tape as it is, without any write, when the arity of the
  node is 0 or its scalar adjoint is 0. In every case it writes adjoints only, and for a
  node none of whose argument pointers is the address of its own adjoint (the arguments of
  a recorded node are earlier nodes) every double \<open>p\<close> receives \<open>derivatives[i] * mAdjoint\<close>
  for each \<open>i < n\<close> with \<open>pAdjPtrs[i] = p\<close>, and the adjoint of the node itself is not
  modified.
\<close>

theorem propagateOne_effect:
  "(Node_n (node_at t k) = 0 \<or> mAdjoint (node_at t k) = 0 \<longrightarrow> propagateOne k t = t) \<and>
   erase_adjoints (propagateOne k t) = erase_adjoints t \<and>
   (no_self_pointer t k \<longrightarrow>
      mAdjoint (node_at (propagateOne k t) k) = mAdjoint (node_at t k) \<and>
      (\<forall>p. deref (propagateOne k t) p = deref t p + received t k p))"
proof (intro conjI impI)
  assume "Node_n (node_at t k) = 0 \<or> mAdjoint (node_at t k) = 0"
  then show "propagateOne k t = t" by (auto simp: propagateOne_def)
next
  show "erase_adjoints (propagateOne k t) = erase_adjoints t" by (rule erase_propagateOne)
next
  assume ns: "no_self_pointer t k"
  then have a: "\<forall>i<Node_n (node_at t k). adjPtr_at t k i \<noteq> AdjPtr k"
    by (simp add: no_self_pointer_def list_all_iff)
  have z: "received t k p = 0" if "Node_n (node_at t k) = 0 \<or> mAdjoint (node_at t k) = 0" for p
    using that unfolding received_def by (intro sum_list_map_zero) auto
  have d: "deref (propagateOne k t) p = deref t p + received t k p" for p
  proof (cases "Node_n (node_at t k) = 0 \<or> mAdjoint (node_at t k) = 0")
    case True
    then show ?thesis using z [OF True] by (auto simp: propagateOne_def)
  next
    case False
    then show ?thesis
      using foldl_propagate_arg [OF a] by (simp add: propagateOne_def received_def)
  qed
  have "received t k (AdjPtr k) = 0"
    unfolding received_def using a by (intro sum_list_map_zero) simp
  with d [of "AdjPtr k"] show "mAdjoint (node_at (propagateOne k t) k) = mAdjoint (node_at t k)" by simp
  show "\<forall>p. deref (propagateOne k t) p = deref t p + received t k p" using d by simp
qed

theorem propagateOne_effect_witness:
  "(Node_n (node_at square_tape 0) = 0 \<or> mAdjoint (node_at square_tape 0) = 0) \<and>
   propagateOne 0 square_tape = square_tape \<and>
   erase_adjoints (propagateOne 1 square_tape) = erase_adjoints square_tape \<and>
   no_self_pointer square_tape 1 \<and>
   mAdjoint (node_at (propagateOne 1 square_tape) 1) = 1 \<and>
   deref (propagateOne 1 square_tape) (AdjPtr 0) = 6"
proof -
  have z: "Node_n (node_at square_tape 0) = 0"
    by (simp add: square_tape_def zero_node_def)
  have u: "[0..<2] = [0, Suc 0]"
    by (simp add: upt_rec)
  have n: "no_self_pointer square_tape 1"
    by (simp add: no_self_pointer_def square_tape_def adjPtr_at_def u)
  have r: "received square_tape 1 (AdjPtr 0) = 6"
    by (simp add: received_def square_tape_def adjPtr_at_def derivative_at_def u)
  have d: "deref square_tape (AdjPtr 0) = 0" "mAdjoint (node_at square_tape 1) = 1"
    by (simp_all add: square_tape_def zero_node_def)
  have a: "propagateOne 0 square_tape = square_tape"
    using propagateOne_effect [of square_tape 0] z by simp
  have b: "erase_adjoints (propagateOne 1 square_tape) = erase_adjoints square_tape"
    "mAdjoint (node_at (propagateOne 1 square_tape) 1) = mAdjoint (node_at square_tape 1)"
    "deref (propagateOne 1 square_tape) (AdjPtr 0) =
       deref square_tape (AdjPtr 0) + received square_tape 1 (AdjPtr 0)"
    using propagateOne_effect [of square_tape 1] n by blast+
  show ?thesis
    using z n a b by (simp only: r d) simp
qed

section \<open>The sweep\<close>

text \<open>
  C3. For iterators \<open>propagateFrom\<close> and \<open>propagateTo\<close> of the tape with \<open>propagateFrom\<close> at
  or after \<open>propagateTo\<close> (and before \<open>end\<close>, so that it can be dereferenced), the static
  \<open>propagateAdjoints\<close> returns the tape on which \<open>propagateOne\<close> was run on the nodes
  \<open>propagateFrom\<close>, \<open>propagateFrom - 1\<close>, ..., \<open>propagateTo\<close>, in this order and both ends
  included; when the two iterators are equal, on this one node.
\<close>

theorem propagateAdjoints_visits:
  assumes "propagateTo \<le> propagateFrom" and "propagateFrom < Tape_end t"
  shows "propagateAdjoints propagateFrom propagateTo t =
           Some (foldl (\<lambda>s k. propagateOne k s) t (rev [propagateTo..<Suc propagateFrom])) \<and>
         (propagateFrom = propagateTo \<longrightarrow>
            propagateAdjoints propagateFrom propagateTo t = Some (propagateOne propagateFrom t))"
proof -
  have "rev [propagateTo..<Suc propagateTo] = [propagateTo]"
    by simp
  then have "foldl (\<lambda>s k. propagateOne k s) t (rev [propagateTo..<Suc propagateTo]) =
      propagateOne propagateTo t"
    by (simp only: foldl_Cons foldl_Nil)
  then show ?thesis
    using propagateAdjoints_foldl [OF assms] by auto
qed

theorem propagateAdjoints_visits_witness:
  "(0::nat) \<le> 1 \<and> 1 < Tape_end square_tape \<and>
   propagateAdjoints 1 0 square_tape = Some (propagateOne 0 (propagateOne 1 square_tape)) \<and>
   (1::nat) \<le> 1 \<and>
   propagateAdjoints 1 1 square_tape = Some (propagateOne 1 square_tape)"
proof -
  have e: "1 < Tape_end square_tape"
    by (simp add: Tape_end_def bl_end_def square_tape_def)
  have u: "rev [0..<Suc 1] = [1, 0]"
    by (simp add: upt_rec)
  have "propagateAdjoints 1 0 square_tape =
      Some (foldl (\<lambda>s k. propagateOne k s) square_tape (rev [0..<Suc 1]))"
    using propagateAdjoints_visits [of 0 1 square_tape] e by blast
  then have a: "propagateAdjoints 1 0 square_tape = Some (propagateOne 0 (propagateOne 1 square_tape))"
    by (simp only: u foldl_Cons foldl_Nil)
  have b: "propagateAdjoints 1 1 square_tape = Some (propagateOne 1 square_tape)"
    using propagateAdjoints_visits [of 1 1 square_tape] e by blast
  show ?thesis
    using e a b by simp
qed

section \<open>Linearity of the sweep\<close>




text \<open>
  The sweep with the identity for the rounding is the sweep in exact arithmetic.
\<close>

lemma propagateOne_rounded_exact: "propagateOne_rounded (\<lambda>x. x) k t = propagateOne k t"
proof -
  have "propagate_arg_rounded (\<lambda>x. x) k = propagate_arg k"
    by (simp add: fun_eq_iff propagate_arg_rounded_def propagate_arg_def)
  then show ?thesis by (simp add: propagateOne_rounded_def propagateOne_def)
qed

lemma propagateAdjoints_rounded_exact:
  "propagateAdjoints_rounded (\<lambda>x. x) it propagateTo t = propagateAdjoints it propagateTo t"
proof (induction it propagateTo t rule: propagateAdjoints.induct)
  case (1 it propagateTo t)
  show ?case
    using "1.IH"
    by (subst propagateAdjoints_rounded.simps, subst propagateAdjoints.simps)
      (simp add: propagateOne_rounded_exact)
qed

lemma seeded_sweep_rounded_exact:
  "seeded_sweep_rounded (\<lambda>x. x) \<alpha> out propagateTo t = seeded_sweep \<alpha> out propagateTo t"
  by (simp add: seeded_sweep_rounded_def seeded_sweep_def propagateAdjoints_rounded_exact)



lemma scales_exactly_zero: "rnd 0 = 0 \<Longrightarrow> scales_exactly rnd 0"
  by (simp add: scales_exactly_def)

lemma scales_exactly_identity: "scales_exactly (\<lambda>x. x) \<alpha>"
  by (simp add: scales_exactly_def)
















section \<open>The first implementation and the abstract tape\<close>

lemmas rec_defs =
  recordNode_def emplace_back_def emplace_back_multi_def DATASIZE_def Let_def
  createNode_def Node_ctor_def Number_binary_def Number_unary_def node_def
  lDer_def rDer_def derivative_def set_derivative_def set_adjPtr_def upd_node_def

lemma view_eqI:
  assumes "node_at t' k = node_at t k"
    and "\<And>i. i < Node_n (node_at t k) \<Longrightarrow> data (myDers t') (pDerivatives (node_at t k) + i) = data (myDers t) (pDerivatives (node_at t k) + i)"
    and "\<And>i. i < Node_n (node_at t k) \<Longrightarrow> data (myArgPtrs t') (pAdjPtrs (node_at t k) + i) = data (myArgPtrs t) (pAdjPtrs (node_at t k) + i)"
  shows "view t' k = view t k"
  using assms by (simp add: view_def adjPtr_at_def derivative_at_def)

lemma multi_start:
  "k \<le> N \<Longrightarrow> p \<le> (if N - p mod N < k then (p div N + 1) * N else p)" for p :: nat
proof (cases "N - p mod N < k")
  case True
  assume "k \<le> N"
  with True have "0 < N" by (cases N) auto
  have lt: "p mod N < N" using \<open>0 < N\<close> by simp
  have eq: "p div N * N + p mod N = p" by simp
  from lt eq have "p \<le> p div N * N + N" by linarith
  then show ?thesis using True by simp
next
  case False
  then show ?thesis by simp
qed

lemma extend_refines:
  assumes wf: "wf_tape t"
    and E1: "\<not> multi t'"
    and E2: "next_space (myNodes t') = Suc (next_space (myNodes t))"
    and E3: "\<And>k. k < next_space (myNodes t) \<Longrightarrow> node_at t' k = node_at t k"
    and E4: "next_space (myDers t) \<le> next_space (myDers t')"
      "next_space (myArgPtrs t) \<le> next_space (myArgPtrs t')"
    and E5: "\<And>x. x < next_space (myDers t) \<Longrightarrow> data (myDers t') x = data (myDers t) x"
      "\<And>x. x < next_space (myArgPtrs t) \<Longrightarrow> data (myArgPtrs t') x = data (myArgPtrs t) x"
    and E6: "view t' (next_space (myNodes t)) = nd"
    and E7: "\<And>i. i < Node_n (node_at t' (next_space (myNodes t))) \<Longrightarrow>
        pDerivatives (node_at t' (next_space (myNodes t))) + i < next_space (myDers t') \<and>
        pAdjPtrs (node_at t' (next_space (myNodes t))) + i < next_space (myArgPtrs t') \<and>
        (\<exists>j<next_space (myNodes t). adjPtr_at t' (next_space (myNodes t)) i = AdjPtr j)"
  shows "wf_tape t' \<and> abstract t' = abstract t @ [nd]"
proof -
  let ?n = "next_space (myNodes t)"
  have old: "pDerivatives (node_at t k) + i < next_space (myDers t) \<and>
        pAdjPtrs (node_at t k) + i < next_space (myArgPtrs t) \<and>
        (\<exists>j<k. adjPtr_at t k i = AdjPtr j)" if "k < ?n" "i < Node_n (node_at t k)" for k i
    using wf that by (simp add: wf_tape_def)
  have v: "view t' k = view t k" if "k < ?n" for k
    using that E3 [OF that] E5 old [OF that] by (intro view_eqI) simp_all
  have a: "abstract t' = abstract t @ [nd]"
    unfolding abstract_def using v E6 by (simp add: E2)
  have w: "wf_tape t'"
    unfolding wf_tape_def
  proof (intro conjI allI impI)
    show "\<not> multi t'" by (rule E1)
  next
    fix k i assume k: "k < next_space (myNodes t')" and i: "i < Node_n (node_at t' k)"
    show "pDerivatives (node_at t' k) + i < next_space (myDers t')"
      "pAdjPtrs (node_at t' k) + i < next_space (myArgPtrs t')"
      "\<exists>j<k. adjPtr_at t' k i = AdjPtr j"
    proof -
      have "pDerivatives (node_at t' k) + i < next_space (myDers t') \<and>
            pAdjPtrs (node_at t' k) + i < next_space (myArgPtrs t') \<and>
            (\<exists>j<k. adjPtr_at t' k i = AdjPtr j)"
      proof (cases "k = ?n")
        case True
        then show ?thesis using E7 [of i] i by simp
      next
        case False
        with k E2 have kn: "k < ?n" by simp
        have i': "i < Node_n (node_at t k)" using i E3 [OF kn] by simp
        have "adjPtr_at t' k i = adjPtr_at t k i"
          using old [OF kn i'] E3 [OF kn] E5 by (simp add: adjPtr_at_def)
        then show ?thesis using old [OF kn i'] E3 [OF kn] E4 by auto
      qed
      then show "pDerivatives (node_at t' k) + i < next_space (myDers t')"
        "pAdjPtrs (node_at t' k) + i < next_space (myArgPtrs t')"
        "\<exists>j<k. adjPtr_at t' k i = AdjPtr j" by simp_all
    qed
  qed
  from w a show ?thesis by simp
qed

lemma Number_leaf_refines:
  assumes "wf_tape t"
  shows "\<exists>t'. Number_leaf v t = Some (\<lparr>myValue = v, myNode = Some (next_space (myNodes t))\<rparr>, t') \<and>
          wf_tape t' \<and> abstract t' = abstract t @ [\<lparr>a_args = [], a_adj = 0\<rparr>]"
proof -
  let ?n = "next_space (myNodes t)"
  define t' where "t' = snd (the (Number_leaf v t))"
  from assms have m: "\<not> multi t" by (simp add: wf_tape_def)
  have r: "Number_leaf v t = Some (\<lparr>myValue = v, myNode = Some ?n\<rparr>, t')"
    unfolding t'_def using m by (simp add: Number_leaf_def rec_defs)
  have "wf_tape t' \<and> abstract t' = abstract t @ [\<lparr>a_args = [], a_adj = 0\<rparr>]"
  proof (rule extend_refines [OF assms])
    show "\<not> multi t'" unfolding t'_def using m by (simp add: Number_leaf_def rec_defs)
    show "next_space (myNodes t') = Suc ?n" unfolding t'_def using m by (simp add: Number_leaf_def rec_defs)
    show "node_at t' k = node_at t k" if "k < ?n" for k
      unfolding t'_def using m that by (simp add: Number_leaf_def rec_defs)
    show "next_space (myDers t) \<le> next_space (myDers t')"
      unfolding t'_def using m by (simp add: Number_leaf_def rec_defs)
    show "next_space (myArgPtrs t) \<le> next_space (myArgPtrs t')"
      unfolding t'_def using m by (simp add: Number_leaf_def rec_defs)
    show "data (myDers t') x = data (myDers t) x" for x
      unfolding t'_def using m by (simp add: Number_leaf_def rec_defs)
    show "data (myArgPtrs t') x = data (myArgPtrs t) x" for x
      unfolding t'_def using m by (simp add: Number_leaf_def rec_defs)
    show "view t' ?n = \<lparr>a_args = [], a_adj = 0\<rparr>"
      unfolding t'_def using m by (simp add: Number_leaf_def rec_defs view_def)
    show "pDerivatives (node_at t' ?n) + i < next_space (myDers t') \<and>
        pAdjPtrs (node_at t' ?n) + i < next_space (myArgPtrs t') \<and>
        (\<exists>j<?n. adjPtr_at t' ?n i = AdjPtr j)" if "i < Node_n (node_at t' ?n)" for i
      using that unfolding t'_def using m by (simp add: Number_leaf_def rec_defs)
  qed
  with r show ?thesis by blast
qed

lemma emplace_back_multi_Some:
  assumes "k \<le> N"
  shows "\<exists>start. next_space bl \<le> start \<and>
           emplace_back_multi N k bl = Some (start, bl\<lparr>next_space := start + k\<rparr>)"
  using assms multi_start [OF assms, of "next_space bl"]
  by (simp add: emplace_back_multi_def Let_def)

lemma recordNode_single:
  assumes "\<not> multi t" and "0 < N" and "N \<le> DATASIZE"
  shows "\<exists>d a. next_space (myDers t) \<le> d \<and> next_space (myArgPtrs t) \<le> a \<and>
           recordNode N t = Some (next_space (myNodes t), rec_tape N d a t)"
proof -
  from emplace_back_multi_Some [OF assms(3)] obtain d where
    d: "next_space (myDers t) \<le> d"
      "emplace_back_multi DATASIZE N (myDers t) = Some (d, (myDers t)\<lparr>next_space := d + N\<rparr>)"
    by blast
  from emplace_back_multi_Some [OF assms(3)] obtain a where
    a: "next_space (myArgPtrs t) \<le> a"
      "emplace_back_multi DATASIZE N (myArgPtrs t) = Some (a, (myArgPtrs t)\<lparr>next_space := a + N\<rparr>)"
    by blast
  have "recordNode N t = Some (next_space (myNodes t), rec_tape N d a t)"
    using assms(1,2) d(2) a(2)
    by (simp add: recordNode_def emplace_back_def Node_ctor_def upd_node_def rec_tape_def)
  with d(1) a(1) show ?thesis by blast
qed

lemmas use_defs =
  createNode_def Number_binary_def Number_unary_def node_def
  lDer_def rDer_def derivative_def set_derivative_def set_adjPtr_def rec_tape_def

lemma unary_op_refines:
  assumes wf: "wf_tape t" and a: "myNode arg = Some l" "l < next_space (myNodes t)"
  shows "\<exists>t'. unary_op arg e d t = Some (\<lparr>myValue = e, myNode = Some (next_space (myNodes t))\<rparr>, t') \<and>
          wf_tape t' \<and> abstract t' = abstract t @ [\<lparr>a_args = [(l, d)], a_adj = 0\<rparr>]"
proof -
  let ?n = "next_space (myNodes t)"
  define t' where "t' = snd (the (unary_op arg e d t))"
  from wf have m: "\<not> multi t" by (simp add: wf_tape_def)
  from recordNode_single [OF m, of 1] obtain ds ps where
    st: "next_space (myDers t) \<le> ds" "next_space (myArgPtrs t) \<le> ps"
      and rn1: "recordNode 1 t = Some (?n, rec_tape 1 ds ps t)"
    by (auto simp: DATASIZE_def)
  from rn1 have rn: "recordNode (Suc 0) t = Some (?n, rec_tape (Suc 0) ds ps t)"
    by simp
  note defs = unary_op_def rn use_defs
  have r: "unary_op arg e d t = Some (\<lparr>myValue = e, myNode = Some ?n\<rparr>, t')"
    unfolding t'_def using a by (simp add: defs)
  have "wf_tape t' \<and> abstract t' = abstract t @ [\<lparr>a_args = [(l, d)], a_adj = 0\<rparr>]"
  proof (rule extend_refines [OF wf])
    show "\<not> multi t'" unfolding t'_def using m a by (simp add: defs)
    show "next_space (myNodes t') = Suc ?n" unfolding t'_def using a by (simp add: defs)
    show "node_at t' k = node_at t k" if "k < ?n" for k
      unfolding t'_def using a that by (simp add: defs)
    show "next_space (myDers t) \<le> next_space (myDers t')"
      unfolding t'_def using a st by (simp add: defs)
    show "next_space (myArgPtrs t) \<le> next_space (myArgPtrs t')"
      unfolding t'_def using m a st by (simp add: defs)
    show "data (myDers t') x = data (myDers t) x" if "x < next_space (myDers t)" for x
      unfolding t'_def using a st that by (simp add: defs)
    show "data (myArgPtrs t') x = data (myArgPtrs t) x" if "x < next_space (myArgPtrs t)" for x
      unfolding t'_def using m a st that by (simp add: defs)
    show "view t' ?n = \<lparr>a_args = [(l, d)], a_adj = 0\<rparr>"
      unfolding t'_def using m a by (simp add: defs view_def adjPtr_at_def derivative_at_def)
    show "pDerivatives (node_at t' ?n) + i < next_space (myDers t') \<and>
        pAdjPtrs (node_at t' ?n) + i < next_space (myArgPtrs t') \<and>
        (\<exists>j<?n. adjPtr_at t' ?n i = AdjPtr j)" if "i < Node_n (node_at t' ?n)" for i
      using that unfolding t'_def using m a by (simp add: defs adjPtr_at_def)
  qed
  with r show ?thesis by blast
qed

lemma binary_op_refines:
  assumes wf: "wf_tape t" and a: "myNode lhs = Some l" "l < next_space (myNodes t)"
    "myNode rhs = Some r" "r < next_space (myNodes t)"
  shows "\<exists>t'. binary_op lhs rhs e dl dr t =
            Some (\<lparr>myValue = e, myNode = Some (next_space (myNodes t))\<rparr>, t') \<and>
          wf_tape t' \<and> abstract t' = abstract t @ [\<lparr>a_args = [(l, dl), (r, dr)], a_adj = 0\<rparr>]"
proof -
  let ?n = "next_space (myNodes t)"
  define t' where "t' = snd (the (binary_op lhs rhs e dl dr t))"
  from wf have m: "\<not> multi t" by (simp add: wf_tape_def)
  from recordNode_single [OF m, of 2] obtain ds ps where
    st: "next_space (myDers t) \<le> ds" "next_space (myArgPtrs t) \<le> ps"
      and rn: "recordNode 2 t = Some (?n, rec_tape 2 ds ps t)"
    by (auto simp: DATASIZE_def)
  note defs = binary_op_def rn use_defs
  have u: "[0..<2] = [0, Suc 0]" by (simp add: upt_rec)
  have r: "binary_op lhs rhs e dl dr t = Some (\<lparr>myValue = e, myNode = Some ?n\<rparr>, t')"
    unfolding t'_def using a by (simp add: defs)
  have "wf_tape t' \<and> abstract t' = abstract t @ [\<lparr>a_args = [(l, dl), (r, dr)], a_adj = 0\<rparr>]"
  proof (rule extend_refines [OF wf])
    show "\<not> multi t'" unfolding t'_def using m a by (simp add: defs)
    show "next_space (myNodes t') = Suc ?n" unfolding t'_def using a by (simp add: defs)
    show "node_at t' k = node_at t k" if "k < ?n" for k
      unfolding t'_def using a that by (simp add: defs)
    show "next_space (myDers t) \<le> next_space (myDers t')"
      unfolding t'_def using a st by (simp add: defs)
    show "next_space (myArgPtrs t) \<le> next_space (myArgPtrs t')"
      unfolding t'_def using m a st by (simp add: defs)
    show "data (myDers t') x = data (myDers t) x" if "x < next_space (myDers t)" for x
      unfolding t'_def using a st that by (simp add: defs)
    show "data (myArgPtrs t') x = data (myArgPtrs t) x" if "x < next_space (myArgPtrs t)" for x
      unfolding t'_def using m a st that by (simp add: defs)
    show "view t' ?n = \<lparr>a_args = [(l, dl), (r, dr)], a_adj = 0\<rparr>"
      unfolding t'_def using m a by (simp add: defs view_def adjPtr_at_def derivative_at_def u)
    show "pDerivatives (node_at t' ?n) + i < next_space (myDers t') \<and>
        pAdjPtrs (node_at t' ?n) + i < next_space (myArgPtrs t') \<and>
        (\<exists>j<?n. adjPtr_at t' ?n i = AdjPtr j)" if "i < Node_n (node_at t' ?n)" for i
    proof -
      have f: "Node_n (node_at t' ?n) = 2" "pDerivatives (node_at t' ?n) = ds"
        "next_space (myDers t') = ds + 2" "pAdjPtrs (node_at t' ?n) = ps"
        "next_space (myArgPtrs t') = ps + 2"
        unfolding t'_def using m a by (simp_all add: defs)
      have g: "adjPtr_at t' ?n 0 = AdjPtr l" "adjPtr_at t' ?n (Suc 0) = AdjPtr r"
        unfolding t'_def using m a by (simp_all add: defs adjPtr_at_def)
      from that f have "i = 0 \<or> i = Suc 0" by auto
      then show ?thesis using f g a by auto
    qed
  qed
  with r show ?thesis by blast
qed

lemma wf_tape_erase:
  assumes "erase_adjoints s = erase_adjoints t"
  shows "wf_tape s = wf_tape t"
  unfolding wf_tape_def
  by (simp add: erase_eq_fields [OF assms] erase_eq_at [OF assms])

lemma wf_tape_no_self_pointer:
  assumes "wf_tape t" and "k < next_space (myNodes t)"
  shows "no_self_pointer t k"
proof -
  have "adjPtr_at t k i \<noteq> AdjPtr k" if "i < Node_n (node_at t k)" for i
  proof -
    from assms that obtain j where "j < k" "adjPtr_at t k i = AdjPtr j"
      by (auto simp: wf_tape_def)
    then show ?thesis by simp
  qed
  then show ?thesis by (simp add: no_self_pointer_def list_all_iff)
qed

lemma length_abstract: "length (abstract t) = next_space (myNodes t)"
  by (simp add: abstract_def)

lemma nth_abstract: "k < next_space (myNodes t) \<Longrightarrow> abstract t ! k = view t k"
  by (simp add: abstract_def)

lemma view_erase:
  assumes "erase_adjoints s = erase_adjoints t"
  shows "a_args (view s k) = a_args (view t k)"
  by (simp add: view_def erase_eq_fields [OF assms] erase_eq_at [OF assms])

lemma abstract_store:
  assumes "j < next_space (myNodes t)"
  shows "abstract (store (AdjPtr j) v t) = (abstract t)[j := (abstract t ! j)\<lparr>a_adj := v\<rparr>]"
proof -
  let ?s = "store (AdjPtr j) v t"
  have er: "erase_adjoints ?s = erase_adjoints t" by (rule erase_store)
  have n: "next_space (myNodes ?s) = next_space (myNodes t)"
    using erase_eq_fields(5) [OF er] .
  show ?thesis
  proof (rule nth_equalityI)
    show "length (abstract ?s) = length ((abstract t)[j := (abstract t ! j)\<lparr>a_adj := v\<rparr>])"
      by (simp add: length_abstract n del: store.simps)
  next
    fix i assume "i < length (abstract ?s)"
    then have i: "i < next_space (myNodes t)" by (simp add: length_abstract n del: store.simps)
    have a: "a_args (view ?s i) = a_args (view t i)" by (rule view_erase [OF er])
    have b: "a_adj (view ?s i) = (if i = j then v else a_adj (view t i))"
      by (simp add: view_def upd_node_def)
    have "view ?s i = (if i = j then (view t j)\<lparr>a_adj := v\<rparr> else view t i)"
      using a b by (cases "view ?s i"; cases "view t i") auto
    then show "abstract ?s ! i = (abstract t)[j := (abstract t ! j)\<lparr>a_adj := v\<rparr>] ! i"
      using i assms by (simp add: nth_abstract n length_abstract nth_list_update del: store.simps)
  qed
qed

lemma propagate_arg_refines:
  assumes wf: "wf_tape t" and k: "k < next_space (myNodes t)" and i: "i < Node_n (node_at t k)"
    and er: "erase_adjoints s = erase_adjoints t"
  shows "abstract (propagate_arg k s i) =
           a_add (ptr_index (adjPtr_at t k i)) (derivative_at t k i * a_adj (abstract s ! k)) (abstract s)"
proof -
  from wf k i obtain j where j: "j < k" "adjPtr_at t k i = AdjPtr j"
    by (auto simp: wf_tape_def)
  have n: "next_space (myNodes s) = next_space (myNodes t)"
    using erase_eq_fields(5) [OF er] .
  have js: "j < next_space (myNodes s)" using j k n by simp
  have ks: "k < next_space (myNodes s)" using k n by simp
  have p: "propagate_arg k s i =
      store (AdjPtr j) (mAdjoint (node_at s j) + derivative_at t k i * mAdjoint (node_at s k)) s"
    by (simp add: propagate_arg_def erase_eq_at [OF er] j del: store.simps)
  show ?thesis
    unfolding p abstract_store [OF js]
    using js ks by (simp add: a_add_def j nth_abstract view_def)
qed

lemma foldl_propagate_arg_refines:
  assumes wf: "wf_tape t" and k: "k < next_space (myNodes t)"
  shows "erase_adjoints s = erase_adjoints t \<Longrightarrow> \<forall>i\<in>set xs. i < Node_n (node_at t k) \<Longrightarrow>
         abstract (foldl (propagate_arg k) s xs) =
           foldl (\<lambda>M' (j, d). a_add j (d * a_adj (M' ! k)) M') (abstract s)
             (map (\<lambda>i. (ptr_index (adjPtr_at t k i), derivative_at t k i)) xs)"
proof (induction xs arbitrary: s)
  case Nil
  then show ?case by simp
next
  case (Cons i xs)
  have er': "erase_adjoints (propagate_arg k s i) = erase_adjoints t"
    using Cons.prems(1) by (simp add: propagate_arg_def erase_store)
  have i: "i < Node_n (node_at t k)" using Cons.prems(2) by simp
  show ?case
    using Cons.IH [OF er'] Cons.prems(2)
    by (simp add: propagate_arg_refines [OF wf k i Cons.prems(1)])
qed

lemma a_propagateOne_zero:
  "a_adj (M ! k) = 0 \<Longrightarrow> foldl (\<lambda>M' (j, d). a_add j (d * a_adj (M' ! k)) M') M xs = M"
  by (induction xs) (auto simp: a_add_def)

lemma propagateOne_refines:
  assumes wf: "wf_tape t" and k: "k < next_space (myNodes t)"
  shows "wf_tape (propagateOne k t) \<and> abstract (propagateOne k t) = a_propagateOne k (abstract t)"
proof -
  have w: "wf_tape (propagateOne k t)"
    using wf wf_tape_erase [OF erase_propagateOne] by simp
  have args: "a_args (abstract t ! k) =
      map (\<lambda>i. (ptr_index (adjPtr_at t k i), derivative_at t k i)) [0..<Node_n (node_at t k)]"
    using k by (simp add: nth_abstract view_def)
  have adj: "a_adj (abstract t ! k) = mAdjoint (node_at t k)"
    using k by (simp add: nth_abstract view_def)
  have "abstract (propagateOne k t) = a_propagateOne k (abstract t)"
  proof (cases "Node_n (node_at t k) = 0 \<or> mAdjoint (node_at t k) = 0")
    case True
    then have "propagateOne k t = t" by (auto simp: propagateOne_def)
    moreover have "a_propagateOne k (abstract t) = abstract t"
      using True unfolding a_propagateOne_def
    proof
      assume "Node_n (node_at t k) = 0"
      then show "foldl (\<lambda>M' (j, d). a_add j (d * a_adj (M' ! k)) M') (abstract t) (a_args (abstract t ! k)) = abstract t"
        by (simp add: args)
    next
      assume "mAdjoint (node_at t k) = 0"
      then show "foldl (\<lambda>M' (j, d). a_add j (d * a_adj (M' ! k)) M') (abstract t) (a_args (abstract t ! k)) = abstract t"
        by (intro a_propagateOne_zero) (simp add: adj)
    qed
    ultimately show ?thesis by simp
  next
    case False
    then have "propagateOne k t = foldl (propagate_arg k) t [0..<Node_n (node_at t k)]"
      by (simp add: propagateOne_def)
    then show ?thesis
      using foldl_propagate_arg_refines [OF wf k, of t "[0..<Node_n (node_at t k)]"]
      by (simp add: a_propagateOne_def args)
  qed
  with w show ?thesis by simp
qed

lemma sweep_refines:
  "wf_tape t \<Longrightarrow> \<forall>k\<in>set ks. k < next_space (myNodes t) \<Longrightarrow>
   wf_tape (foldl (\<lambda>s k. propagateOne k s) t ks) \<and>
   abstract (foldl (\<lambda>s k. propagateOne k s) t ks) = foldl (\<lambda>M' k. a_propagateOne k M') (abstract t) ks"
proof (induction ks arbitrary: t)
  case Nil
  then show ?case by simp
next
  case (Cons k ks)
  have k: "k < next_space (myNodes t)" using Cons.prems(2) by simp
  note one = propagateOne_refines [OF Cons.prems(1) k]
  have n: "next_space (myNodes (propagateOne k t)) = next_space (myNodes t)"
    using erase_eq_fields(5) [OF erase_propagateOne] .
  show ?case
    using Cons.IH [of "propagateOne k t"] one Cons.prems(2) by (simp add: n)
qed

lemma propagateToStart_refines:
  assumes wf: "wf_tape t" and y: "myNode y = Some k" "k < next_space (myNodes t)"
  shows "\<exists>t'. propagateToStart y t = Some t' \<and> wf_tape t' \<and>
           abstract t' = a_sweep k 0 ((abstract t)[k := (abstract t ! k)\<lparr>a_adj := 1\<rparr>])"
proof -
  let ?t1 = "store (AdjPtr k) 1 t"
  have er: "erase_adjoints ?t1 = erase_adjoints t" by (rule erase_store)
  have n: "next_space (myNodes ?t1) = next_space (myNodes t)"
    using erase_eq_fields(5) [OF er] .
  have w1: "wf_tape ?t1" using wf wf_tape_erase [OF er] by simp
  have a1: "abstract ?t1 = (abstract t)[k := (abstract t ! k)\<lparr>a_adj := 1\<rparr>]"
    by (rule abstract_store [OF y(2)])
  have e: "k < Tape_end ?t1" using y(2) n by (simp add: Tape_end_def bl_end_def)
  have p: "propagateToStart y t = propagateAdjoints k 0 ?t1"
    using y n by (simp add: propagateToStart_def Number_propagateAdjoints_def set_adjoint_def
        Tape_find_def bl_find_def Tape_begin_def bl_begin_def)
  have f: "propagateAdjoints k 0 ?t1 = Some (foldl (\<lambda>s k. propagateOne k s) ?t1 (rev [0..<Suc k]))"
    by (rule propagateAdjoints_foldl [OF _ e]) simp
  have "\<forall>j\<in>set (rev [0..<Suc k]). j < next_space (myNodes ?t1)"
    using y(2) n by auto
  from sweep_refines [OF w1 this] show ?thesis
    unfolding p f a_sweep_def a1 by simp
qed

section \<open>Scenario 1 on the first implementation\<close>

lemma add_NN_record: "add_NN lhs rhs t = binary_op lhs rhs (myValue lhs + myValue rhs) 1 1 t"
  by (simp add: add_NN_def binary_op_def)

lemma add_Nd_record: "add_Nd lhs rhs t = unary_op lhs (myValue lhs + rhs) 1 t"
  by (simp add: add_Nd_def unary_op_def)

lemma mul_NN_record:
  "mul_NN lhs rhs t = binary_op lhs rhs (myValue lhs * myValue rhs) (myValue rhs) (myValue lhs) t"
  by (simp add: mul_NN_def binary_op_def)

lemma mul_Nd_record: "mul_Nd lhs rhs t = unary_op lhs (myValue lhs * rhs) rhs t"
  by (simp add: mul_Nd_def unary_op_def)

lemma wf_tape_empty: "empty_single t \<Longrightarrow> wf_tape t \<and> abstract t = []"
  by (simp add: empty_single_def wf_tape_def abstract_def)

lemma size_abstract: "abstract t = M \<Longrightarrow> next_space (myNodes t) = length M"
  using length_abstract [of t] by simp

lemma upt5: "rev [0..<Suc 4] = [4, 3, 2, Suc 0, 0]"
  by (simp add: upt_rec)

lemma scenario_1_value:
  assumes "empty_single t0"
  shows "scenario_1 t0 = Some (16, 8)"
proof -
  from wf_tape_empty [OF assms] have w0: "wf_tape t0" and a0: "abstract t0 = []" by simp_all
  define x where "x = \<lparr>myValue = 3, myNode = Some 0\<rparr>"
  define xx where "xx = \<lparr>myValue = 9, myNode = Some 1\<rparr>"
  define x2 where "x2 = \<lparr>myValue = 6, myNode = Some 2\<rparr>"
  define s where "s = \<lparr>myValue = 15, myNode = Some 3\<rparr>"
  define y where "y = \<lparr>myValue = 16, myNode = Some 4\<rparr>"
  from Number_leaf_refines [OF w0, of 3] obtain t1 where
    s1: "Number_leaf 3 t0 = Some (x, t1)" and w1: "wf_tape t1"
    and a1: "abstract t1 = [\<lparr>a_args = [], a_adj = 0\<rparr>]"
    using size_abstract [OF a0] by (auto simp: a0 x_def)
  have n1: "next_space (myNodes t1) = 1" using size_abstract [OF a1] by simp
  from binary_op_refines [OF w1, of x 0 x 0 9 3 3] obtain t2 where
    s2: "mul_NN x x t1 = Some (xx, t2)" and w2: "wf_tape t2"
    and a2: "abstract t2 = [\<lparr>a_args = [], a_adj = 0\<rparr>, \<lparr>a_args = [(0, 3), (0, 3)], a_adj = 0\<rparr>]"
    by (auto simp: mul_NN_record a1 n1 x_def xx_def)
  have n2: "next_space (myNodes t2) = 2" using size_abstract [OF a2] by simp
  from unary_op_refines [OF w2, of x 0 6 2] obtain t3 where
    s3: "mul_dN 2 x t2 = Some (x2, t3)" and w3: "wf_tape t3"
    and a3: "abstract t3 = [\<lparr>a_args = [], a_adj = 0\<rparr>, \<lparr>a_args = [(0, 3), (0, 3)], a_adj = 0\<rparr>,
        \<lparr>a_args = [(0, 2)], a_adj = 0\<rparr>]"
    by (auto simp: mul_dN_def mul_Nd_record a2 n2 x_def x2_def)
  have n3: "next_space (myNodes t3) = 3" using size_abstract [OF a3] by simp
  from binary_op_refines [OF w3, of xx 1 x2 2 15 1 1] obtain t4 where
    s4: "add_NN xx x2 t3 = Some (s, t4)" and w4: "wf_tape t4"
    and a4: "abstract t4 = [\<lparr>a_args = [], a_adj = 0\<rparr>, \<lparr>a_args = [(0, 3), (0, 3)], a_adj = 0\<rparr>,
        \<lparr>a_args = [(0, 2)], a_adj = 0\<rparr>, \<lparr>a_args = [(1, 1), (2, 1)], a_adj = 0\<rparr>]"
    by (auto simp: add_NN_record a3 n3 xx_def x2_def s_def)
  have n4: "next_space (myNodes t4) = 4" using size_abstract [OF a4] by simp
  from unary_op_refines [OF w4, of s 3 16 1] obtain t5 where
    s5: "add_Nd s 1 t4 = Some (y, t5)" and w5: "wf_tape t5"
    and a5: "abstract t5 = [\<lparr>a_args = [], a_adj = 0\<rparr>, \<lparr>a_args = [(0, 3), (0, 3)], a_adj = 0\<rparr>,
        \<lparr>a_args = [(0, 2)], a_adj = 0\<rparr>, \<lparr>a_args = [(1, 1), (2, 1)], a_adj = 0\<rparr>,
        \<lparr>a_args = [(3, 1)], a_adj = 0\<rparr>]"
    by (auto simp: add_Nd_record a4 n4 s_def y_def)
  have n5: "next_space (myNodes t5) = 5" using size_abstract [OF a5] by simp
  from propagateToStart_refines [OF w5, of y 4] obtain t6 where
    s6: "propagateToStart y t5 = Some t6" and w6: "wf_tape t6"
    and a6: "abstract t6 = a_sweep 4 0 ((abstract t5)[4 := (abstract t5 ! 4)\<lparr>a_adj := 1\<rparr>])"
    by (auto simp: n5 y_def)
  have a6': "abstract t6 = [\<lparr>a_args = [], a_adj = 8\<rparr>, \<lparr>a_args = [(0, 3), (0, 3)], a_adj = 1\<rparr>,
        \<lparr>a_args = [(0, 2)], a_adj = 1\<rparr>, \<lparr>a_args = [(1, 1), (2, 1)], a_adj = 1\<rparr>,
        \<lparr>a_args = [(3, 1)], a_adj = 1\<rparr>]"
    unfolding a6 a5 a_sweep_def upt5 by (simp add: a_propagateOne_def a_add_def)
  have "next_space (myNodes t6) = 5" using size_abstract [OF a6'] by simp
  then have "abstract t6 ! 0 = view t6 0" by (simp add: nth_abstract)
  then have x6: "adjoint x t6 = Some 8"
    by (simp add: a6' adjoint_def x_def view_def)
  show ?thesis
    unfolding scenario_1_def by (simp add: s1 s2 s3 s4 s5 s6 x6) (simp add: y_def)
qed

lemma scenario_1_right_first_value:
  assumes "empty_single t0"
  shows "scenario_1_right_first t0 = Some (16, 8)"
proof -
  from wf_tape_empty [OF assms] have w0: "wf_tape t0" and a0: "abstract t0 = []" by simp_all
  define x where "x = \<lparr>myValue = 3, myNode = Some 0\<rparr>"
  define xx where "xx = \<lparr>myValue = 9, myNode = Some 2\<rparr>"
  define x2 where "x2 = \<lparr>myValue = 6, myNode = Some 1\<rparr>"
  define s where "s = \<lparr>myValue = 15, myNode = Some 3\<rparr>"
  define y where "y = \<lparr>myValue = 16, myNode = Some 4\<rparr>"
  from Number_leaf_refines [OF w0, of 3] obtain t1 where
    s1: "Number_leaf 3 t0 = Some (x, t1)" and w1: "wf_tape t1"
    and a1: "abstract t1 = [\<lparr>a_args = [], a_adj = 0\<rparr>]"
    using size_abstract [OF a0] by (auto simp: a0 x_def)
  have n1: "next_space (myNodes t1) = 1" using size_abstract [OF a1] by simp
  from unary_op_refines [OF w1, of x 0 6 2] obtain t2 where
    s2: "mul_dN 2 x t1 = Some (x2, t2)" and w2: "wf_tape t2"
    and a2: "abstract t2 = [\<lparr>a_args = [], a_adj = 0\<rparr>, \<lparr>a_args = [(0, 2)], a_adj = 0\<rparr>]"
    by (auto simp: mul_dN_def mul_Nd_record a1 n1 x_def x2_def)
  have n2: "next_space (myNodes t2) = 2" using size_abstract [OF a2] by simp
  from binary_op_refines [OF w2, of x 0 x 0 9 3 3] obtain t3 where
    s3: "mul_NN x x t2 = Some (xx, t3)" and w3: "wf_tape t3"
    and a3: "abstract t3 = [\<lparr>a_args = [], a_adj = 0\<rparr>, \<lparr>a_args = [(0, 2)], a_adj = 0\<rparr>,
        \<lparr>a_args = [(0, 3), (0, 3)], a_adj = 0\<rparr>]"
    by (auto simp: mul_NN_record a2 n2 x_def xx_def)
  have n3: "next_space (myNodes t3) = 3" using size_abstract [OF a3] by simp
  from binary_op_refines [OF w3, of xx 2 x2 1 15 1 1] obtain t4 where
    s4: "add_NN xx x2 t3 = Some (s, t4)" and w4: "wf_tape t4"
    and a4: "abstract t4 = [\<lparr>a_args = [], a_adj = 0\<rparr>, \<lparr>a_args = [(0, 2)], a_adj = 0\<rparr>,
        \<lparr>a_args = [(0, 3), (0, 3)], a_adj = 0\<rparr>, \<lparr>a_args = [(2, 1), (1, 1)], a_adj = 0\<rparr>]"
    by (auto simp: add_NN_record a3 n3 xx_def x2_def s_def)
  have n4: "next_space (myNodes t4) = 4" using size_abstract [OF a4] by simp
  from unary_op_refines [OF w4, of s 3 16 1] obtain t5 where
    s5: "add_Nd s 1 t4 = Some (y, t5)" and w5: "wf_tape t5"
    and a5: "abstract t5 = [\<lparr>a_args = [], a_adj = 0\<rparr>, \<lparr>a_args = [(0, 2)], a_adj = 0\<rparr>,
        \<lparr>a_args = [(0, 3), (0, 3)], a_adj = 0\<rparr>, \<lparr>a_args = [(2, 1), (1, 1)], a_adj = 0\<rparr>,
        \<lparr>a_args = [(3, 1)], a_adj = 0\<rparr>]"
    by (auto simp: add_Nd_record a4 n4 s_def y_def)
  have n5: "next_space (myNodes t5) = 5" using size_abstract [OF a5] by simp
  from propagateToStart_refines [OF w5, of y 4] obtain t6 where
    s6: "propagateToStart y t5 = Some t6" and w6: "wf_tape t6"
    and a6: "abstract t6 = a_sweep 4 0 ((abstract t5)[4 := (abstract t5 ! 4)\<lparr>a_adj := 1\<rparr>])"
    by (auto simp: n5 y_def)
  have a6': "abstract t6 = [\<lparr>a_args = [], a_adj = 8\<rparr>, \<lparr>a_args = [(0, 2)], a_adj = 1\<rparr>,
        \<lparr>a_args = [(0, 3), (0, 3)], a_adj = 1\<rparr>, \<lparr>a_args = [(2, 1), (1, 1)], a_adj = 1\<rparr>,
        \<lparr>a_args = [(3, 1)], a_adj = 1\<rparr>]"
    unfolding a6 a5 a_sweep_def upt5 by (simp add: a_propagateOne_def a_add_def)
  have "next_space (myNodes t6) = 5" using size_abstract [OF a6'] by simp
  then have "abstract t6 ! 0 = view t6 0" by (simp add: nth_abstract)
  then have x6: "adjoint x t6 = Some 8"
    by (simp add: a6' adjoint_def x_def view_def)
  show ?thesis
    unfolding scenario_1_right_first_def by (simp add: s1 s2 s3 s4 s5 s6 x6) (simp add: y_def)
qed

text \<open>
  C1. On a tape in single-output mode that holds no node, recording the leaf \<open>x = 3\<close>,
  building \<open>y = x * x + 2 * x + 1\<close> with the overloaded operators and calling
  \<open>y.propagateToStart()\<close> returns, with \<open>y.value() = 16\<close> and \<open>x.adjoint() = 8\<close>, whichever
  operand of the first sum is evaluated first.
\<close>

theorem scenario_1_result:
  assumes "empty_single t0"
  shows "scenario_1 t0 = Some (16, 8) \<and> scenario_1_right_first t0 = Some (16, 8)"
  using scenario_1_value [OF assms] scenario_1_right_first_value [OF assms] by simp

theorem scenario_1_result_witness:
  "empty_single new_tape \<and>
   scenario_1 new_tape = Some (16, 8) \<and> scenario_1_right_first new_tape = Some (16, 8)"
proof -
  have h: "empty_single new_tape"
    by (simp add: empty_single_def new_tape_def)
  show ?thesis
    using h scenario_1_result [OF h] by simp
qed

section \<open>The operators of both implementations\<close>









section \<open>The second implementation and the abstract tape\<close>













section \<open>Programs on both implementations\<close>














text \<open>
  The selections of the two implementations differ at two zeros of different sign and where
  one operand only is NaN, and nowhere else.
\<close>

lemma max_values_differ:
  "max_NN_value l r \<noteq> max_NN_value1 l r \<longleftrightarrow>
     l \<noteq> r \<and> (is_zero l \<and> is_zero r \<or> l = NaN \<or> r = NaN)"
  by (cases l; cases r) (auto simp: max_NN_value_def max_NN_value1_def std_max_def ieee_less_def)

lemma min_values_differ:
  "min_Nd_value l r \<noteq> min_Nd_value1 l r \<longleftrightarrow>
     l \<noteq> r \<and> (is_zero l \<and> is_zero r \<or> l = NaN \<or> r = NaN)"
  by (cases l; cases r) (auto simp: min_Nd_value_def min_Nd_value1_def std_min_def ieee_less_def)


end
